theory Spec2Isabelle
  imports Complex_Main
begin

section \<open>Drawing primitives of \<^verbatim>\<open>arcade/draw_commands.py\<close>\<close>

text \<open>
  A shallow embedding of the geometry generation, colour normalisation, draw submission
  and texture loading of \<^verbatim>\<open>src/arcade/draw_commands.py\<close>.

  Conventions of the embedding.
  \<^item> The value of a Python \<^verbatim>\<open>float\<close> is a real number. Where the code truncates, rounds
    or compares the result of float arithmetic (\<^verbatim>\<open>int(...)\<close> in the arc functions,
    \<^verbatim>\<open>round(..., 2)\<close> in \<^verbatim>\<open>rotate_point\<close>), every operation is rounded to IEEE 754
    binary64 by \<open>fl\<close>, as CPython computes it; overflow to infinity and NaN are outside
    the model. Where coordinates are only computed and handed on to the graphics back
    end (the corners of rectangles, the points of arcs and ellipses, the tilt), the
    arithmetic is read exactly: \<^verbatim>\<open>math.cos\<close>, \<^verbatim>\<open>math.sin\<close> and \<^verbatim>\<open>math.radians\<close> are
    \<^term>\<open>cos\<close>, \<^term>\<open>sin\<close> and multiplication by \<open>pi / 180\<close>. A Python \<^verbatim>\<open>int\<close> is an
    \<^typ>\<open>int\<close>.
  \<^item> Every \<^verbatim>\<open>raise\<close> is a value of type \<open>error\<close>; a function that can raise returns
    \<open>error + 'a\<close>, with \<open>Inl\<close> for the exception.
  \<^item> The graphics back end (\<^verbatim>\<open>shader\<close>, \<^verbatim>\<open>pyglet.gl\<close>) is a log of the calls made to
    it, in order; the calls themselves are assumed not to fail.
\<close>

subsection \<open>Exceptions\<close>

datatype exn_class = ValueError | AttributeError | ZeroDivisionError | FileNotFoundError

text \<open>One constructor for each \<^verbatim>\<open>raise\<close> of the module, carrying the values its
  message is formatted from.\<close>

datatype error =
    NotThreeOrFourByteColor
      \<comment> \<open>\<^verbatim>\<open>ValueError("This isn't a 3 or 4 byte color")\<close>\<close>
  | HeightLessThanZero
      \<comment> \<open>\<^verbatim>\<open>ValueError("Height entered is less than zero. ...")\<close>\<close>
  | WidthLessThanZero
      \<comment> \<open>\<^verbatim>\<open>ValueError("Width entered is less than zero. ...")\<close>\<close>
  | TextureWidthNotPositive int
      \<comment> \<open>\<^verbatim>\<open>ValueError("Texture has a width of {}, must be > 0.")\<close>\<close>
  | StartXOutsideImage int int
      \<comment> \<open>\<^verbatim>\<open>ValueError("Can't load texture starting at an x of {} when the image is only {} across.")\<close>\<close>
  | StartYOutsideImage int int
      \<comment> \<open>\<^verbatim>\<open>ValueError("Can't load texture starting at an y of {} when the image is only {} high.")\<close>\<close>
  | EndXOutsideImage int int
      \<comment> \<open>\<^verbatim>\<open>ValueError("Can't load texture ending at an x of {} when the image is only {} wide.")\<close>\<close>
  | EndYOutsideImage int int
      \<comment> \<open>\<^verbatim>\<open>ValueError("Can't load texture ending at an y of {} when the image is only {} high.")\<close>\<close>
  | LeftGreaterThanRight real real
      \<comment> \<open>\<^verbatim>\<open>AttributeError("Left coordinate {} must be less than or equal to the right coordinate {}")\<close>\<close>
  | BottomGreaterThanTop real real
      \<comment> \<open>\<^verbatim>\<open>AttributeError("Bottom coordinate {} must be less than or equal to the top coordinate {}")\<close>\<close>
  | FloatDivisionByZero
      \<comment> \<open>\<^verbatim>\<open>ZeroDivisionError\<close> of the \<^verbatim>\<open>/\<close> operator\<close>
  | NoSuchFile string
      \<comment> \<open>\<^verbatim>\<open>PIL.Image.open\<close> on a name that is not a readable image\<close>

fun class_of :: "error \<Rightarrow> exn_class" where
  "class_of NotThreeOrFourByteColor = ValueError"
| "class_of HeightLessThanZero = ValueError"
| "class_of WidthLessThanZero = ValueError"
| "class_of (TextureWidthNotPositive w) = ValueError"
| "class_of (StartXOutsideImage x w) = ValueError"
| "class_of (StartYOutsideImage y h) = ValueError"
| "class_of (EndXOutsideImage x w) = ValueError"
| "class_of (EndYOutsideImage y h) = ValueError"
| "class_of (LeftGreaterThanRight l r) = AttributeError"
| "class_of (BottomGreaterThanTop b t) = AttributeError"
| "class_of FloatDivisionByZero = ZeroDivisionError"
| "class_of (NoSuchFile f) = FileNotFoundError"

subsection \<open>Colours\<close>

text \<open>A colour is the sequence of its channels, as the Python tuple or list is.\<close>

type_synonym color = "int list"

definition get_four_byte_color :: "color \<Rightarrow> error + color" where
  "get_four_byte_color color =
     (if length color = 4 then Inr color
      else if length color = 3 then Inr [color ! 0, color ! 1, color ! 2, 255]
      else Inl NotThreeOrFourByteColor)"

subsection \<open>Python arithmetic on numbers\<close>

text \<open>\<^verbatim>\<open>int(x)\<close> of a float truncates towards zero.\<close>

definition py_int :: "real \<Rightarrow> int" where
  "py_int x = (if 0 \<le> x then \<lfloor>x\<rfloor> else \<lceil>x\<rceil>)"

text \<open>\<^verbatim>\<open>a // b\<close>, for a divisor that is not zero (the module only divides by the
  literal 2): the floor of the quotient.\<close>

definition floordiv :: "real \<Rightarrow> real \<Rightarrow> real" where
  "floordiv a b = of_int \<lfloor>a / b\<rfloor>"

text \<open>\<^verbatim>\<open>round(x, ndigits)\<close>: the nearest multiple of \<open>10 ^ - ndigits\<close>, a tie going to
  the even one.\<close>

definition round_half_even :: "real \<Rightarrow> int" where
  "round_half_even v =
     (let f = \<lfloor>v\<rfloor>; d = v - of_int f
      in if d < 1 / 2 then f
         else if 1 / 2 < d then f + 1
         else if even f then f else f + 1)"

definition py_round :: "real \<Rightarrow> nat \<Rightarrow> real" where
  "py_round x ndigits = of_int (round_half_even (x * 10 ^ ndigits)) / 10 ^ ndigits"

subsection \<open>Double precision\<close>

text \<open>The number of binary digits of a natural number (\<^verbatim>\<open>int.bit_length\<close>).\<close>

function bit_length :: "nat \<Rightarrow> nat" where
  "bit_length n = (if n = 0 then 0 else Suc (bit_length (n div 2)))"
  by pat_completeness auto
termination
  by (relation "measure (\<lambda>n. n)") auto

declare bit_length.simps [simp del]

text \<open>The binary exponent of a real number that is not zero: the \<open>e\<close> with
  \<open>2 ^ e \<le> \<bar>x\<bar> < 2 ^ (e + 1)\<close>.\<close>

definition binade :: "real \<Rightarrow> int" where
  "binade x =
     (if 1 \<le> \<bar>x\<bar> then int (bit_length (nat \<lfloor>\<bar>x\<bar>\<rfloor>)) - 1
      else - int (bit_length (nat (\<lceil>1 / \<bar>x\<bar>\<rceil> - 1))))"

text \<open>Rounding to the nearest IEEE 754 binary64 number, a tie going to the even
  significand: 53 significant bits, and below \<open>2 ^ - 1022\<close> the fixed spacing
  \<open>2 ^ - 1074\<close> of the subnormal numbers. Every arithmetic operation of a Python float
  is the exact operation followed by this rounding.\<close>

definition fl :: "real \<Rightarrow> real" where
  "fl x =
     (if x = 0 then 0
      else let e = max (binade x) (- 1022);
               ulp = 2 powi (e - 52)
           in of_int (round_half_even (x / ulp)) * ulp)"

definition float_add :: "real \<Rightarrow> real \<Rightarrow> real" where
  "float_add a b = fl (a + b)"

definition float_sub :: "real \<Rightarrow> real \<Rightarrow> real" where
  "float_sub a b = fl (a - b)"

definition float_mul :: "real \<Rightarrow> real \<Rightarrow> real" where
  "float_mul a b = fl (a * b)"

definition float_div :: "real \<Rightarrow> real \<Rightarrow> real" where
  "float_div a b = fl (a / b)"

text \<open>\<^verbatim>\<open>round(x, ndigits)\<close> of a float is again a float: the one nearest to the decimal
  result.\<close>

definition round_float :: "real \<Rightarrow> nat \<Rightarrow> real" where
  "round_float x ndigits = fl (py_round x ndigits)"

text \<open>CPython's \<^verbatim>\<open>math.pi\<close> is the double nearest to the literal
  \<^verbatim>\<open>3.14159265358979323846\<close>, and \<^verbatim>\<open>math.radians(x)\<close> is \<^verbatim>\<open>x * (math.pi / 180.0)\<close>.\<close>

definition math_pi :: real where
  "math_pi = fl 3.14159265358979323846"

definition math_radians :: "real \<Rightarrow> real" where
  "math_radians x = float_mul x (float_div math_pi 180)"

text \<open>\<^verbatim>\<open>math.cos\<close> and \<^verbatim>\<open>math.sin\<close> are functions of the platform's C library and are
  parameters of what uses them. A library that rounds the exact value correctly is one
  instance.\<close>

definition rounded_cos :: "real \<Rightarrow> real" where
  "rounded_cos t = fl (cos t)"

definition rounded_sin :: "real \<Rightarrow> real" where
  "rounded_sin t = fl (sin t)"

text \<open>\<^verbatim>\<open>math.radians\<close> read exactly.\<close>

definition radians :: "real \<Rightarrow> real" where
  "radians angle = angle * pi / 180"

subsection \<open>Rotation of a point\<close>

type_synonym point = "real \<times> real"

text \<open>\<^verbatim>\<open>rotate_point\<close> read exactly, as the tilt of the shapes uses it.\<close>

definition rotate_point :: "real \<Rightarrow> real \<Rightarrow> real \<Rightarrow> real \<Rightarrow> real \<Rightarrow> point" where
  "rotate_point x y cx cy angle =
     (let temp_x = x - cx;
          temp_y = y - cy;
          rotated_x = temp_x * cos (radians angle) - temp_y * sin (radians angle);
          rotated_y = temp_x * sin (radians angle) + temp_y * cos (radians angle);
          rounding_precision = 2
      in (py_round (rotated_x + cx) rounding_precision,
          py_round (rotated_y + cy) rounding_precision))"

text \<open>\<^verbatim>\<open>rotate_point\<close> as CPython computes it on floats: the same expressions with
  every operation rounded to double precision, \<^verbatim>\<open>math.cos\<close> and \<^verbatim>\<open>math.sin\<close> being the
  parameters \<open>math_cos\<close> and \<open>math_sin\<close>.\<close>

definition rotate_point_float ::
  "(real \<Rightarrow> real) \<Rightarrow> (real \<Rightarrow> real) \<Rightarrow> real \<Rightarrow> real \<Rightarrow> real \<Rightarrow> real \<Rightarrow> real \<Rightarrow> point" where
  "rotate_point_float math_cos math_sin x y cx cy angle =
     (let temp_x = float_sub x cx;
          temp_y = float_sub y cy;
          rotated_x = float_sub (float_mul temp_x (math_cos (math_radians angle)))
                        (float_mul temp_y (math_sin (math_radians angle)));
          rotated_y = float_add (float_mul temp_x (math_sin (math_radians angle)))
                        (float_mul temp_y (math_cos (math_radians angle)));
          rounding_precision = 2
      in (round_float (float_add rotated_x cx) rounding_precision,
          round_float (float_add rotated_y cy) rounding_precision))"

subsection \<open>Draw submission\<close>

datatype gl_mode =
    GL_POINTS | GL_LINES | GL_LINE_LOOP | GL_LINE_STRIP
  | GL_TRIANGLE_STRIP | GL_TRIANGLE_FAN | GL_POLYGON

text \<open>The calls to the graphics back end, in the order the module makes them.\<close>

datatype gl_call =
    ShaderProgram
  | ShaderBuffer "point list" color
  | ShaderVertexArray
  | SetProjection
  | GlLineWidth real
  | GlPointSize real
  | GlEnableBlend
  | GlBlendFunc
  | GlEnableLineSmooth
  | GlHintLineSmooth
  | GlHintPolygonSmooth
  | VaoRender gl_mode
  | GlGenTextures nat
  | GlBindTexture nat
  | GlPixelStorei
  | GlTexParameterWrapS
  | GlTexParameterWrapT
  | GlTexParameterMagFilter
  | GlTexParameterMinFilter

type_synonym gl_log = "gl_call list"

text \<open>What \<^verbatim>\<open>_generic_draw_line_strip\<close> sends once the colour is known: the vertex
  buffer (every vertex with the same four-byte colour), the vertex array, the
  projection, the line state and one render call.\<close>

definition submission :: "point list \<Rightarrow> color \<Rightarrow> real \<Rightarrow> gl_mode \<Rightarrow> gl_log" where
  "submission point_list color4 line_width mode =
     [ShaderBuffer point_list color4, ShaderVertexArray, SetProjection,
      GlLineWidth line_width, GlPointSize line_width,
      GlEnableBlend, GlBlendFunc, GlEnableLineSmooth,
      GlHintLineSmooth, GlHintPolygonSmooth, VaoRender mode]"

definition generic_draw_line_strip ::
  "point list \<Rightarrow> color \<Rightarrow> real \<Rightarrow> gl_mode \<Rightarrow> gl_log \<Rightarrow> (error + unit) \<times> gl_log" where
  "generic_draw_line_strip point_list color line_width mode gl =
     (let gl1 = gl @ [ShaderProgram]
      in case get_four_byte_color color of
           Inl e \<Rightarrow> (Inl e, gl1)
         | Inr color4 \<Rightarrow> (Inr (), gl1 @ submission point_list color4 line_width mode))"

text \<open>The render calls of a log: the draw calls that were issued.\<close>

fun is_render :: "gl_call \<Rightarrow> bool" where
  "is_render (VaoRender m) = True"
| "is_render c = False"

definition draw_calls :: "gl_log \<Rightarrow> nat" where
  "draw_calls gl = length (filter is_render gl)"

subsection \<open>Rectangles\<close>

text \<open>The four corners of \<^verbatim>\<open>draw_rectangle_filled\<close> and \<^verbatim>\<open>draw_rectangle_outline\<close>.
  In Python the unary minus binds tighter than \<^verbatim>\<open>//\<close>: \<^verbatim>\<open>-width // 2\<close> is
  \<^verbatim>\<open>(-width) // 2\<close>.\<close>

definition rectangle_corners ::
  "real \<Rightarrow> real \<Rightarrow> real \<Rightarrow> real \<Rightarrow> point \<times> point \<times> point \<times> point" where
  "rectangle_corners center_x center_y width height =
     (let p1 = (floordiv (- width) 2 + center_x, floordiv (- height) 2 + center_y);
          p2 = (floordiv width 2 + center_x, floordiv (- height) 2 + center_y);
          p3 = (floordiv width 2 + center_x, floordiv height 2 + center_y);
          p4 = (floordiv (- width) 2 + center_x, floordiv height 2 + center_y)
      in (p1, p2, p3, p4))"

text \<open>The branch \<^verbatim>\<open>if tilt_angle != 0\<close>: every corner rotated about the centre.\<close>

fun rotate_corners ::
  "real \<Rightarrow> real \<Rightarrow> real \<Rightarrow> point \<times> point \<times> point \<times> point \<Rightarrow> point \<times> point \<times> point \<times> point" where
  "rotate_corners center_x center_y tilt_angle (p1, p2, p3, p4) =
     (rotate_point (fst p1) (snd p1) center_x center_y tilt_angle,
      rotate_point (fst p2) (snd p2) center_x center_y tilt_angle,
      rotate_point (fst p3) (snd p3) center_x center_y tilt_angle,
      rotate_point (fst p4) (snd p4) center_x center_y tilt_angle)"

definition tilt_corners ::
  "real \<Rightarrow> real \<Rightarrow> real \<Rightarrow> point \<times> point \<times> point \<times> point \<Rightarrow> point \<times> point \<times> point \<times> point" where
  "tilt_corners center_x center_y tilt_angle ps =
     (if tilt_angle \<noteq> 0 then rotate_corners center_x center_y tilt_angle ps else ps)"

text \<open>The point list of the filled rectangle, in the order it is submitted.\<close>

fun filled_order :: "point \<times> point \<times> point \<times> point \<Rightarrow> point list" where
  "filled_order (p1, p2, p3, p4) = [p1, p2, p4, p3]"

definition draw_rectangle_filled ::
  "real \<Rightarrow> real \<Rightarrow> real \<Rightarrow> real \<Rightarrow> color \<Rightarrow> real \<Rightarrow> gl_log \<Rightarrow> (error + unit) \<times> gl_log" where
  "draw_rectangle_filled center_x center_y width height color tilt_angle gl =
     generic_draw_line_strip
       (filled_order
          (tilt_corners center_x center_y tilt_angle
             (rectangle_corners center_x center_y width height)))
       color 1 GL_TRIANGLE_STRIP gl"

text \<open>The parameter \<^verbatim>\<open>top\<close> is written \<open>top'\<close>: \<open>top\<close> is a constant of HOL.\<close>

definition draw_lrtb_rectangle_filled ::
  "real \<Rightarrow> real \<Rightarrow> real \<Rightarrow> real \<Rightarrow> color \<Rightarrow> gl_log \<Rightarrow> (error + unit) \<times> gl_log" where
  "draw_lrtb_rectangle_filled left right top' bottom color gl =
     (if left > right then (Inl (LeftGreaterThanRight left right), gl)
      else if bottom > top' then (Inl (BottomGreaterThanTop bottom top'), gl)
      else let center_x = (left + right) / 2;
               center_y = (top' + bottom) / 2;
               width = right - left;
               height = top' - bottom
           in draw_rectangle_filled center_x center_y width height color 0 gl)"

subsection \<open>Arcs and ellipses\<close>

text \<open>The body of the segment loops of \<^verbatim>\<open>draw_arc_filled\<close> and \<^verbatim>\<open>draw_ellipse_filled\<close>:
  one point for each segment, appended to the list. The division by \<^verbatim>\<open>num_segments\<close>
  raises when it is zero.\<close>

fun segment_loop ::
  "real \<Rightarrow> real \<Rightarrow> int \<Rightarrow> int list \<Rightarrow> point list \<Rightarrow> error + point list" where
  "segment_loop width height num_segments [] unrotated_point_list =
     Inr unrotated_point_list"
| "segment_loop width height num_segments (segment # rest) unrotated_point_list =
     (if num_segments = 0 then Inl FloatDivisionByZero
      else let theta = 2.0 * 3.1415926 * of_int segment / of_int num_segments;
               x = width * cos theta;
               y = height * sin theta
           in segment_loop width height num_segments rest
                (unrotated_point_list @ [(x, y)]))"

text \<open>\<^verbatim>\<open>int(start_angle / 360 * num_segments)\<close>: the quotient and the product are
  rounded to double precision (the integer \<^verbatim>\<open>num_segments\<close> is converted to a float
  first), then \<^verbatim>\<open>int\<close> truncates.\<close>

definition start_segment :: "real \<Rightarrow> int \<Rightarrow> int" where
  "start_segment start_angle num_segments =
     py_int (float_mul (float_div start_angle 360) (fl (of_int num_segments)))"

definition end_segment :: "real \<Rightarrow> int \<Rightarrow> int" where
  "end_segment end_angle num_segments =
     py_int (float_mul (float_div end_angle 360) (fl (of_int num_segments)))"

text \<open>The list \<^verbatim>\<open>unrotated_point_list\<close> of \<^verbatim>\<open>draw_arc_filled\<close>: the pivot, then the
  points of \<^verbatim>\<open>range(start_segment, end_segment + 1)\<close>.\<close>

definition arc_unrotated ::
  "real \<Rightarrow> real \<Rightarrow> real \<Rightarrow> real \<Rightarrow> int \<Rightarrow> error + point list" where
  "arc_unrotated width height start_angle end_angle num_segments =
     segment_loop width height num_segments
       [start_segment start_angle num_segments .. end_segment end_angle num_segments]
       [(0, 0)]"

text \<open>The list \<^verbatim>\<open>unrotated_point_list\<close> of \<^verbatim>\<open>draw_ellipse_filled\<close>: the points of
  \<^verbatim>\<open>range(num_segments)\<close>.\<close>

definition ellipse_unrotated :: "real \<Rightarrow> real \<Rightarrow> int \<Rightarrow> error + point list" where
  "ellipse_unrotated width height num_segments =
     segment_loop width height num_segments [0 .. num_segments - 1] []"

text \<open>The \<^verbatim>\<open>else\<close> branch of the tilt test: every point rotated about the origin.\<close>

definition rotate_all :: "point list \<Rightarrow> real \<Rightarrow> point list" where
  "rotate_all unrotated_point_list tilt_angle =
     map (\<lambda>point. rotate_point (fst point) (snd point) 0 0 tilt_angle) unrotated_point_list"

definition uncentered :: "point list \<Rightarrow> real \<Rightarrow> point list" where
  "uncentered unrotated_point_list tilt_angle =
     (if tilt_angle = 0 then unrotated_point_list
      else rotate_all unrotated_point_list tilt_angle)"

definition centered :: "point list \<Rightarrow> real \<Rightarrow> real \<Rightarrow> point list" where
  "centered uncentered_point_list center_x center_y =
     map (\<lambda>point. (fst point + center_x, snd point + center_y)) uncentered_point_list"

definition draw_arc_filled ::
  "real \<Rightarrow> real \<Rightarrow> real \<Rightarrow> real \<Rightarrow> color \<Rightarrow> real \<Rightarrow> real \<Rightarrow> real \<Rightarrow> int \<Rightarrow> gl_log
     \<Rightarrow> (error + unit) \<times> gl_log" where
  "draw_arc_filled center_x center_y width height color start_angle end_angle
       tilt_angle num_segments gl =
     (case arc_unrotated width height start_angle end_angle num_segments of
        Inl e \<Rightarrow> (Inl e, gl)
      | Inr unrotated_point_list \<Rightarrow>
          generic_draw_line_strip
            (centered (uncentered unrotated_point_list tilt_angle) center_x center_y)
            color 1 GL_TRIANGLE_FAN gl)"

definition draw_ellipse_filled ::
  "real \<Rightarrow> real \<Rightarrow> real \<Rightarrow> real \<Rightarrow> color \<Rightarrow> real \<Rightarrow> int \<Rightarrow> gl_log
     \<Rightarrow> (error + unit) \<times> gl_log" where
  "draw_ellipse_filled center_x center_y width height color tilt_angle num_segments gl =
     (case ellipse_unrotated width height num_segments of
        Inl e \<Rightarrow> (Inl e, gl)
      | Inr unrotated_point_list \<Rightarrow>
          generic_draw_line_strip
            (centered (uncentered unrotated_point_list tilt_angle) center_x center_y)
            color 1 GL_TRIANGLE_FAN gl)"

subsection \<open>Formatting of the cache key\<close>

text \<open>\<^verbatim>\<open>"{}".format(v)\<close> of an \<^verbatim>\<open>int\<close> is its decimal numeral, of a \<^verbatim>\<open>bool\<close> the
  word \<^verbatim>\<open>True\<close> or \<^verbatim>\<open>False\<close>, of a \<^verbatim>\<open>str\<close> the string itself. The texture loaders
  are modelled for integer crop coordinates and an integer scale, as in the doctests of
  \<^verbatim>\<open>load_texture\<close>.\<close>

definition digit_char :: "nat \<Rightarrow> char" where
  "digit_char d = ''0123456789'' ! d"

function str_nat :: "nat \<Rightarrow> string" where
  "str_nat n = (if n < 10 then [digit_char n] else str_nat (n div 10) @ [digit_char (n mod 10)])"
  by pat_completeness auto
termination
  by (relation "measure (\<lambda>n. n)") auto

declare str_nat.simps [simp del]

definition str_int :: "int \<Rightarrow> string" where
  "str_int i = (if i < 0 then CHR ''-'' # str_nat (nat (- i)) else str_nat (nat i))"

definition str_bool :: "bool \<Rightarrow> string" where
  "str_bool b = (if b then ''True'' else ''False'')"

text \<open>\<^verbatim>\<open>"{}{}{}{}{}{}{}{}".format(file_name, x, y, width, height, scale, flipped, mirrored)\<close>\<close>

definition cache_name_of ::
  "string \<Rightarrow> int \<Rightarrow> int \<Rightarrow> int \<Rightarrow> int \<Rightarrow> int \<Rightarrow> bool \<Rightarrow> bool \<Rightarrow> string" where
  "cache_name_of file_name x y width height scale flipped mirrored =
     file_name @ str_int x @ str_int y @ str_int width @ str_int height @ str_int scale
       @ str_bool flipped @ str_bool mirrored"

subsection \<open>Textures\<close>

text \<open>The fourth argument of \<^verbatim>\<open>Texture\<close>: \<^verbatim>\<open>load_texture\<close> passes the file name,
  \<^verbatim>\<open>load_textures\<close> the image location.\<close>

datatype texture_name = FileName string | ImageLocation "int \<times> int \<times> int \<times> int"

datatype attr = TextureId nat | Number real | TextureName texture_name | PyNone

text \<open>An instance is the dictionary of its attributes; an attribute that was never
  assigned is absent.\<close>

type_synonym pyobj = "string \<rightharpoonup> attr"

text \<open>\<^verbatim>\<open>Texture.__init__\<close>, run on the instance \<open>self\<close>: the exception raised, if any,
  and the instance as \<^verbatim>\<open>__init__\<close> leaves it.\<close>

definition Texture_init ::
  "pyobj \<Rightarrow> nat \<Rightarrow> real \<Rightarrow> real \<Rightarrow> texture_name \<Rightarrow> error option \<times> pyobj" where
  "Texture_init self texture_id width height file_name =
     (if height < 0 then (Some HeightLessThanZero, self)
      else if width < 0 then (Some WidthLessThanZero, self)
      else (None,
            self(''texture_id'' \<mapsto> TextureId texture_id,
                 ''width'' \<mapsto> Number width,
                 ''height'' \<mapsto> Number height,
                 ''texture_name'' \<mapsto> TextureName file_name,
                 ''_sprite'' \<mapsto> PyNone,
                 ''_sprite_list'' \<mapsto> PyNone)))"

text \<open>The expression \<^verbatim>\<open>Texture(texture_id, width, height, file_name)\<close>: a new instance
  with no attribute, then \<^verbatim>\<open>__init__\<close>; the instance is the value of the expression only
  when \<^verbatim>\<open>__init__\<close> returns.\<close>

definition Texture :: "nat \<Rightarrow> real \<Rightarrow> real \<Rightarrow> texture_name \<Rightarrow> error + pyobj" where
  "Texture texture_id width height file_name =
     (case Texture_init Map.empty texture_id width height file_name of
        (Some e, self) \<Rightarrow> Inl e
      | (None, self) \<Rightarrow> Inr self)"

subsection \<open>The image library\<close>

text \<open>\<^verbatim>\<open>PIL\<close> is an external library. An image is modelled by its size
  \<open>(width, height)\<close> alone: \<^verbatim>\<open>crop\<close> returns an image of the size of the box (an
  inverted box is empty), \<^verbatim>\<open>mirror\<close> and \<^verbatim>\<open>flip\<close> keep the size. The
  variable \<^verbatim>\<open>image\<close> of the source is written \<open>img\<close>: \<open>image\<close> is a constant of HOL.\<close>

type_synonym image = "int \<times> int"

fun crop :: "image \<Rightarrow> int \<times> int \<times> int \<times> int \<Rightarrow> image" where
  "crop img (x0, y0, x1, y1) = (max 0 (x1 - x0), max 0 (y1 - y0))"

definition mirror :: "image \<Rightarrow> image" where
  "mirror img = img"

definition flip :: "image \<Rightarrow> image" where
  "flip img = img"

subsection \<open>The state of the process\<close>

text \<open>The image files on disk, the log of graphics calls, the number of texture names
  generated, the \<^verbatim>\<open>Texture\<close> instances created so far (a reference to an instance is
  its index in \<open>objects\<close>), and the dictionary \<^verbatim>\<open>load_texture.texture_cache\<close>, from
  cache names to references.\<close>

record world =
  disk :: "string \<rightharpoonup> image"
  gl_calls :: gl_log
  textures_generated :: nat
  objects :: "pyobj list"
  texture_cache :: "string \<rightharpoonup> nat"

text \<open>\<^verbatim>\<open>glGenTextures\<close> with the binding and the parameters set after it; the new
  texture name is returned.\<close>

definition gen_texture :: "world \<Rightarrow> nat \<times> world" where
  "gen_texture w =
     (let texture = Suc (textures_generated w)
      in (texture,
          w\<lparr>textures_generated := texture,
            gl_calls := gl_calls w @
              [GlGenTextures texture, GlBindTexture texture, GlPixelStorei,
               GlTexParameterWrapS, GlTexParameterWrapT,
               GlTexParameterMagFilter, GlTexParameterMinFilter]\<rparr>))"

text \<open>A new instance enters the heap; its reference is returned.\<close>

definition new_object :: "pyobj \<Rightarrow> world \<Rightarrow> nat \<times> world" where
  "new_object obj w = (length (objects w), w\<lparr>objects := objects w @ [obj]\<rparr>)"

subsection \<open>\<^verbatim>\<open>load_textures\<close>\<close>

fun load_textures_loop ::
  "image \<Rightarrow> (int \<times> int \<times> int \<times> int) list \<Rightarrow> bool \<Rightarrow> bool \<Rightarrow> int \<Rightarrow> nat list \<Rightarrow> world
     \<Rightarrow> (error + nat list) \<times> world" where
  "load_textures_loop source_image [] mirrored flipped scale texture_info_list w =
     (Inr texture_info_list, w)"
| "load_textures_loop source_image (image_location # rest) mirrored flipped scale
       texture_info_list w =
     (let (x, y, width, height) = image_location;
          (source_image_width, source_image_height) = source_image
      in
        if width \<le> 0 then (Inl (TextureWidthNotPositive width), w)
        else if x > source_image_width
          then (Inl (StartXOutsideImage x source_image_width), w)
        else if y > source_image_height
          then (Inl (StartYOutsideImage y source_image_height), w)
        else if x + width > source_image_width
          then (Inl (EndXOutsideImage (x + width) source_image_width), w)
        else if y + height > source_image_height
          then (Inl (EndYOutsideImage (y + height) source_image_height), w)
        else
          let img = crop source_image (x, y, x + width, y + height);
              img = (if mirrored then mirror img else img);
              img = (if flipped then flip img else img);
              (image_width, image_height) = img;
              (texture, w1) = gen_texture w;
              image_width = image_width * scale;
              image_height = image_height * scale
          in (case Texture texture (of_int width) (of_int height)
                     (ImageLocation image_location) of
                Inl e \<Rightarrow> (Inl e, w1)
              | Inr obj \<Rightarrow>
                  (let (r, w2) = new_object obj w1
                   in load_textures_loop source_image rest mirrored flipped scale
                        (texture_info_list @ [r]) w2)))"

definition load_textures ::
  "string \<Rightarrow> (int \<times> int \<times> int \<times> int) list \<Rightarrow> bool \<Rightarrow> bool \<Rightarrow> int \<Rightarrow> world
     \<Rightarrow> (error + nat list) \<times> world" where
  "load_textures file_name image_location_list mirrored flipped scale w =
     (case disk w file_name of
        None \<Rightarrow> (Inl (NoSuchFile file_name), w)
      | Some source_image \<Rightarrow>
          load_textures_loop source_image image_location_list mirrored flipped scale [] w)"

subsection \<open>\<^verbatim>\<open>load_texture\<close>\<close>

text \<open>The validation and the crop of \<^verbatim>\<open>load_texture\<close>; with all four of
  \<open>x\<close>, \<open>y\<close>, \<open>width\<close>, \<open>height\<close> zero the whole image is taken.\<close>

definition cropped :: "image \<Rightarrow> int \<Rightarrow> int \<Rightarrow> int \<Rightarrow> int \<Rightarrow> error + image" where
  "cropped source_image x y width height =
     (let (source_image_width, source_image_height) = source_image
      in
        if x \<noteq> 0 \<or> y \<noteq> 0 \<or> width \<noteq> 0 \<or> height \<noteq> 0 then
          if x > source_image_width
            then Inl (StartXOutsideImage x source_image_width)
          else if y > source_image_height
            then Inl (StartYOutsideImage y source_image_height)
          else if x + width > source_image_width
            then Inl (EndXOutsideImage (x + width) source_image_width)
          else if y + height > source_image_height
            then Inl (EndYOutsideImage (y + height) source_image_height)
          else Inr (crop source_image (x, y, x + width, y + height))
        else Inr source_image)"

definition load_texture ::
  "string \<Rightarrow> int \<Rightarrow> int \<Rightarrow> int \<Rightarrow> int \<Rightarrow> bool \<Rightarrow> bool \<Rightarrow> int \<Rightarrow> world
     \<Rightarrow> (error + nat) \<times> world" where
  "load_texture file_name x y width height mirrored flipped scale w =
     (let cache_name = cache_name_of file_name x y width height scale flipped mirrored
      in case texture_cache w cache_name of
           Some cached \<Rightarrow> (Inr cached, w)
         | None \<Rightarrow>
            (case disk w file_name of
               None \<Rightarrow> (Inl (NoSuchFile file_name), w)
             | Some source_image \<Rightarrow>
                (case cropped source_image x y width height of
                   Inl e \<Rightarrow> (Inl e, w)
                 | Inr img \<Rightarrow>
                    (let img = (if mirrored then mirror img else img);
                         img = (if flipped then flip img else img);
                         (image_width, image_height) = img;
                         (texture, w1) = gen_texture w;
                         image_width = image_width * scale;
                         image_height = image_height * scale
                     in (case Texture texture (of_int image_width) (of_int image_height)
                                (FileName file_name) of
                           Inl e \<Rightarrow> (Inl e, w1)
                         | Inr obj \<Rightarrow>
                             (let (result, w2) = new_object obj w1
                              in (Inr result,
                                  w2\<lparr>texture_cache :=
                                       (texture_cache w2)(cache_name \<mapsto> result)\<rparr>)))))))"

text \<open>What an instance reports as its width and height.\<close>

definition reported_size :: "world \<Rightarrow> nat \<Rightarrow> attr option \<times> attr option" where
  "reported_size w r = ((objects w ! r) ''width'', (objects w ! r) ''height'')"

text \<open>The process when the module has been loaded: \<^verbatim>\<open>load_texture.texture_cache = dict()\<close>,
  no graphics call made, no instance created; \<open>files\<close> are the image files on disk.\<close>

definition start :: "(string \<rightharpoonup> image) \<Rightarrow> world" where
  "start files =
     \<lparr>disk = files, gl_calls = [], textures_generated = 0, objects = [],
      texture_cache = Map.empty\<rparr>"

section \<open>Colour normalisation\<close>

text \<open>
  Claim C7. \<^verbatim>\<open>get_four_byte_color\<close> returns a colour of four channels unchanged; for a
  colour of three channels it returns four channels, the first three those of the
  input and the fourth 255; for every other number of channels it raises the
  \<^verbatim>\<open>ValueError\<close> of an invalid colour format.
\<close>

theorem get_four_byte_color_cases:
  "(length c = 4 \<longrightarrow> get_four_byte_color c = Inr c) \<and>
   (length c = 3 \<longrightarrow>
      (\<exists>c'. get_four_byte_color c = Inr c' \<and> length c' = 4 \<and> take 3 c' = c \<and> c' ! 3 = 255)) \<and>
   (length c \<noteq> 3 \<and> length c \<noteq> 4 \<longrightarrow>
      get_four_byte_color c = Inl NotThreeOrFourByteColor \<and>
      class_of NotThreeOrFourByteColor = ValueError)"
proof (intro conjI impI)
  assume "length c = 4"
  then show "get_four_byte_color c = Inr c"
    by (simp add: get_four_byte_color_def)
next
  assume len: "length c = 3"
  then obtain r g b where c: "c = [r, g, b]"
    by (cases c; cases "tl c"; cases "tl (tl c)") auto
  show "\<exists>c'. get_four_byte_color c = Inr c' \<and> length c' = 4 \<and> take 3 c' = c \<and> c' ! 3 = 255"
    unfolding c by (simp add: get_four_byte_color_def)
next
  assume "length c \<noteq> 3 \<and> length c \<noteq> 4"
  then show "get_four_byte_color c = Inl NotThreeOrFourByteColor"
    by (simp add: get_four_byte_color_def)
next
  show "class_of NotThreeOrFourByteColor = ValueError"
    by simp
qed

theorem get_four_byte_color_cases_witness:
  "get_four_byte_color [1, 2, 3, 4] = Inr [1, 2, 3, 4] \<and>
   get_four_byte_color [1, 2, 3] = Inr [1, 2, 3, 255] \<and>
   get_four_byte_color [1, 2] = Inl NotThreeOrFourByteColor \<and>
   get_four_byte_color [] = Inl NotThreeOrFourByteColor \<and>
   get_four_byte_color [1, 2, 3, 4, 5] = Inl NotThreeOrFourByteColor"
  using get_four_byte_color_cases [of "[1, 2, 3, 4]"]
    get_four_byte_color_cases [of "[1, 2]"]
    get_four_byte_color_cases [of "[]"]
    get_four_byte_color_cases [of "[1, 2, 3, 4, 5]"]
  by (simp add: get_four_byte_color_def)

section \<open>Double precision arithmetic\<close>

lemmas float_ops = float_add_def float_sub_def float_mul_def float_div_def

lemmas fl_eval = fl_def binade_def bit_length.simps Let_def round_half_even_def power_int_def
  power_one_over

lemma bit_length_bounds:
  "0 < n \<Longrightarrow> 2 ^ (bit_length n - 1) \<le> n \<and> n < 2 ^ bit_length n"
proof (induction n rule: bit_length.induct)
  case (1 n)
  show ?case
  proof (cases "n div 2 = 0")
    case True
    with "1.prems" have "n = 1" by (simp add: div_eq_0_iff) 
    then show ?thesis
      by (simp add: bit_length.simps)
  next
    case False
    with "1.IH" "1.prems" have ih: "2 ^ (bit_length (n div 2) - 1) \<le> n div 2"
      "n div 2 < 2 ^ bit_length (n div 2)"
      by auto
    have pos: "0 < bit_length (n div 2)"
      using False by (subst bit_length.simps) simp
    have bl: "bit_length n = Suc (bit_length (n div 2))"
      using "1.prems" by (subst bit_length.simps) simp
    have "2 ^ (bit_length n - 1) = 2 * 2 ^ (bit_length (n div 2) - 1)"
      using pos bl by (cases "bit_length (n div 2)") simp_all
    also have "\<dots> \<le> 2 * (n div 2)" using ih(1) by simp
    also have "\<dots> \<le> n" by simp
    finally have lo: "2 ^ (bit_length n - 1) \<le> n" .
    have "n < 2 * (n div 2) + 2" by presburger
    also have "\<dots> \<le> 2 * 2 ^ bit_length (n div 2)" using ih(2) by simp
    finally have "n < 2 ^ bit_length n" by (simp add: bl)
    with lo show ?thesis by simp
  qed
qed

lemma bit_length_pos: "0 < n \<Longrightarrow> 0 < bit_length n"
  by (subst bit_length.simps) simp



lemma bit_length_bounds_real:
  assumes "0 < n"
  shows "(2::real) ^ (bit_length n - 1) \<le> real n \<and> real n + 1 \<le> 2 ^ bit_length n"
proof -
  from bit_length_bounds [OF assms] have a: "2 ^ (bit_length n - 1) \<le> n"
    and b: "Suc n \<le> 2 ^ bit_length n"
    by auto
  from a have "real (2 ^ (bit_length n - 1)) \<le> real n"
    by (simp only: of_nat_le_iff)
  moreover from b have "real (Suc n) \<le> real (2 ^ bit_length n)"
    by (simp only: of_nat_le_iff)
  ultimately show ?thesis
    by simp
qed

lemma powi_bit_length:
  "(2::real) powi (int k) = 2 ^ k" "(2::real) powi (- int k) = 1 / 2 ^ k"
  by (simp_all add: power_int_def power_one_over inverse_eq_divide)


lemma binade_bounds_big:
  assumes "1 \<le> \<bar>x\<bar>"
  shows "2 powi binade x \<le> \<bar>x\<bar> \<and> \<bar>x\<bar> < 2 powi (binade x + 1)"
proof -
  define n where "n = nat \<lfloor>\<bar>x\<bar>\<rfloor>"
  have fl1: "1 \<le> \<lfloor>\<bar>x\<bar>\<rfloor>" using assms by (simp add: le_floor_iff)
  then have n0: "0 < n" unfolding n_def by simp
  have rn: "real n = of_int \<lfloor>\<bar>x\<bar>\<rfloor>" unfolding n_def using fl1 by simp
  have n1: "real n \<le> \<bar>x\<bar>" unfolding rn by (rule of_int_floor_le)
  have n2: "\<bar>x\<bar> < real n + 1" unfolding rn by linarith
  obtain k where k: "bit_length n = Suc k"
    using bit_length_pos [OF n0] by (cases "bit_length n") auto
  have b: "binade x = int k"
    using assms by (simp add: binade_def n_def [symmetric] k)
  have b1: "binade x + 1 = int (Suc k)" unfolding b by simp
  from bit_length_bounds_real [OF n0] have "(2::real) ^ k \<le> real n" "real n + 1 \<le> 2 ^ Suc k"
    unfolding k by simp_all
  with n1 n2 show ?thesis
    unfolding b1 unfolding b powi_bit_length by linarith
qed

lemma binade_bounds_small:
  assumes "x \<noteq> 0" "\<bar>x\<bar> < 1"
  shows "2 powi binade x \<le> \<bar>x\<bar> \<and> \<bar>x\<bar> < 2 powi (binade x + 1)"
proof -
  define y where "y = 1 / \<bar>x\<bar>"
  have y: "1 < y" using assms by (simp add: y_def)
  define n where "n = nat (\<lceil>y\<rceil> - 1)"
  have c: "2 \<le> \<lceil>y\<rceil>" using y by linarith
  then have n0: "0 < n" unfolding n_def by simp
  have rn: "real n = of_int \<lceil>y\<rceil> - 1" unfolding n_def using c by simp
  have n1: "real n < y" unfolding rn using ceiling_correct [of y] by linarith
  have n2: "y \<le> real n + 1" unfolding rn using ceiling_correct [of y] by linarith
  obtain k where k: "bit_length n = Suc k"
    using bit_length_pos [OF n0] by (cases "bit_length n") auto
  have b: "binade x = - int (Suc k)"
    using assms by (simp add: binade_def y_def [symmetric] n_def [symmetric] k)
  have b1: "binade x + 1 = - int k" unfolding b by simp
  from bit_length_bounds_real [OF n0] have "(2::real) ^ k \<le> real n" "real n + 1 \<le> 2 ^ Suc k"
    unfolding k by simp_all
  with n1 n2 have lo: "(2::real) ^ k < y" and hi: "y \<le> 2 ^ Suc k"
    by linarith+
  have x: "\<bar>x\<bar> = 1 / y" using assms by (simp add: y_def)
  have ypos: "0 < y" using y by simp
  have "1 / 2 ^ Suc k \<le> 1 / y"
    using hi ypos by (intro divide_left_mono) simp_all
  moreover have "1 / y < 1 / 2 ^ k"
    using lo ypos by (intro divide_strict_left_mono) simp_all
  ultimately show ?thesis
    unfolding b1 unfolding b powi_bit_length x by simp
qed

lemma binade_bounds:
  "x \<noteq> 0 \<Longrightarrow> 2 powi binade x \<le> \<bar>x\<bar> \<and> \<bar>x\<bar> < 2 powi (binade x + 1)"
  using binade_bounds_big [of x] binade_bounds_small [of x] by linarith


lemma binade_less: "x \<noteq> 0 \<Longrightarrow> \<bar>x\<bar> < 2 powi k \<Longrightarrow> binade x < k"
proof (rule ccontr)
  assume x: "x \<noteq> 0" and lt: "\<bar>x\<bar> < 2 powi k" and "\<not> binade x < k"
  then have "k \<le> binade x" by simp
  then have "(2::real) powi k \<le> 2 powi binade x"
    by (intro power_int_increasing) simp_all
  with binade_bounds [OF x] lt show False by linarith
qed

lemma binade_ge: "x \<noteq> 0 \<Longrightarrow> 2 powi k \<le> \<bar>x\<bar> \<Longrightarrow> k \<le> binade x"
proof (rule ccontr)
  assume x: "x \<noteq> 0" and le: "2 powi k \<le> \<bar>x\<bar>" and "\<not> k \<le> binade x"
  then have "binade x + 1 \<le> k" by simp
  then have "(2::real) powi (binade x + 1) \<le> 2 powi k"
    by (intro power_int_increasing) simp_all
  with binade_bounds [OF x] le show False by linarith
qed

lemma round_half_even_of_int: "round_half_even (of_int k) = k"
  by (simp add: round_half_even_def Let_def)

lemma round_half_even_near: "\<bar>of_int (round_half_even v) - v\<bar> \<le> 1 / 2"
  unfolding round_half_even_def Let_def
  by (auto simp: abs_if) linarith+

lemma round_half_even_le: "v \<le> of_int N \<Longrightarrow> round_half_even v \<le> N"
proof -
  assume v: "v \<le> of_int N"
  show ?thesis
  proof (cases "\<lfloor>v\<rfloor> < N")
    case True
    have "round_half_even v \<le> \<lfloor>v\<rfloor> + 1"
      by (simp add: round_half_even_def Let_def)
    with True show ?thesis by simp
  next
    case False
    moreover have "\<lfloor>v\<rfloor> \<le> N" using floor_mono [OF v] by simp
    ultimately have "\<lfloor>v\<rfloor> = N" by simp
    with v have "v = of_int N"
      using of_int_floor_le [of v] by linarith
    then show ?thesis by (simp add: round_half_even_of_int)
  qed
qed

lemma round_half_even_ge: "of_int M \<le> v \<Longrightarrow> M \<le> round_half_even v"
proof -
  assume "of_int M \<le> v"
  then have "M \<le> \<lfloor>v\<rfloor>" by (simp add: le_floor_iff)
  moreover have "\<lfloor>v\<rfloor> \<le> round_half_even v"
    by (simp add: round_half_even_def Let_def)
  ultimately show ?thesis by simp
qed

lemma fl_zero: "fl 0 = 0"
  by (simp add: fl_def)

lemma fl_error:
  assumes "x \<noteq> 0"
  shows "\<bar>fl x - x\<bar> \<le> 2 powi (max (binade x) (- 1022) - 53)"
proof -
  define u :: real where "u = 2 powi (max (binade x) (- 1022) - 52)"
  have u: "0 < u" unfolding u_def by (simp add: zero_less_power_int)
  have f: "fl x = of_int (round_half_even (x / u)) * u"
    using assms by (simp add: fl_def Let_def u_def)
  have "fl x - x = (of_int (round_half_even (x / u)) - x / u) * u"
    unfolding f using u by (simp add: field_simps)
  then have "\<bar>fl x - x\<bar> = \<bar>of_int (round_half_even (x / u)) - x / u\<bar> * u"
    using u by (simp add: abs_mult)
  also have "\<dots> \<le> 1 / 2 * u"
    using round_half_even_near [of "x / u"] u by (intro mult_right_mono) simp_all
  also have "1 / 2 * u = 2 powi (max (binade x) (- 1022) - 53)"
  proof -
    have "(2::real) powi (max (binade x) (- 1022) - 53) =
        2 powi (max (binade x) (- 1022) - 52 - 1)"
      by (rule arg_cong [where f = "\<lambda>k. 2 powi k"]) simp
    also have "\<dots> = 2 powi (max (binade x) (- 1022) - 52) / 2 powi 1"
      by (rule power_int_diff) simp
    finally show ?thesis
      unfolding u_def by simp
  qed
  finally show ?thesis .
qed

lemma fl_error_small:
  assumes "\<bar>x\<bar> < 2"
  shows "\<bar>fl x - x\<bar> \<le> 1 / 2 ^ 53"
proof (cases "x = 0")
  case True
  then show ?thesis by (simp add: fl_zero)
next
  case False
  have "\<bar>x\<bar> < 2 powi 1" using assms by simp
  from binade_less [OF False this] have "max (binade x) (- 1022) - 53 \<le> - 53"
    by simp
  then have "(2::real) powi (max (binade x) (- 1022) - 53) \<le> 2 powi (- 53)"
    by (intro power_int_increasing) simp_all
  also have "(2::real) powi (- 53) = 1 / 2 ^ 53"
    by (simp add: power_int_minus_divide)
  finally show ?thesis
    using fl_error [OF False] by linarith
qed


lemma fl_exact:
  assumes y: "y = of_int k * 2 powi j"
    and j: "max (binade y) (- 1022) - 52 \<le> j"
  shows "fl y = y"
proof (cases "y = 0")
  case True
  then show ?thesis by (simp add: fl_zero)
next
  case False
  define e where "e = max (binade y) (- 1022) - 52"
  define d where "d = nat (j - e)"
  have jd: "j = e + int d" using j unfolding d_def e_def by simp
  have p: "(2::real) powi j = 2 powi e * 2 ^ d"
    unfolding jd by (subst power_int_add) simp_all
  have u: "(2::real) powi e \<noteq> 0" by simp
  have q: "y / 2 powi e = of_int (k * 2 ^ d)"
    unfolding y p using u by simp
  have "fl y = of_int (round_half_even (y / 2 powi e)) * 2 powi e"
    using False by (simp add: fl_def Let_def e_def)
  also have "\<dots> = of_int (k * 2 ^ d) * 2 powi e"
    unfolding q round_half_even_of_int ..
  also have "\<dots> = y"
    unfolding y p by simp
  finally show ?thesis .
qed

lemma fl_idem: "fl (fl x) = fl x"
proof (cases "x = 0")
  case True
  then show ?thesis by (simp add: fl_zero)
next
  case False
  define e where "e = max (binade x) (- 1022)"
  define u :: real where "u = 2 powi (e - 52)"
  define m where "m = round_half_even (x / u)"
  have u: "0 < u" unfolding u_def by (simp add: zero_less_power_int)
  have f: "fl x = of_int m * u"
    using False by (simp add: fl_def Let_def u_def e_def m_def)
  have e1022: "- 1022 \<le> e" unfolding e_def by simp
  have top: "u * 2 ^ 53 = 2 powi (e + 1)"
  proof -
    have "(2::real) powi (e - 52 + 53) = 2 powi (e - 52) * 2 powi 53"
      by (rule power_int_add) simp
    moreover have "e - 52 + 53 = e + 1" by simp
    ultimately show ?thesis unfolding u_def by simp
  qed
  have "\<bar>x\<bar> < 2 powi (binade x + 1)"
    using binade_bounds [OF False] by simp
  also have "\<dots> \<le> 2 powi (e + 1)"
    unfolding e_def by (intro power_int_increasing) simp_all
  finally have xlt: "\<bar>x\<bar> < u * 2 ^ 53" unfolding top .
  then have "\<bar>x / u\<bar> < 2 ^ 53"
    using u by (simp add: abs_mult field_simps)
  then have xu: "x / u \<le> of_int (2 ^ 53)" "of_int (- (2 ^ 53)) \<le> x / u"
    by (simp_all add: abs_if split: if_splits)
  have mb: "m \<le> 2 ^ 53" "- (2 ^ 53) \<le> m"
    unfolding m_def
    using round_half_even_le [OF xu(1)] round_half_even_ge [OF xu(2)] by simp_all
  show ?thesis
  proof (cases "\<bar>m\<bar> = 2 ^ 53")
    case True
    define h where "h = m div 2"
    from True have "m = 2 ^ 53 \<or> m = - (2 ^ 53)"
      by (auto simp: abs_if split: if_splits)
    then have h: "m = 2 * h" "\<bar>h\<bar> = 2 ^ 52"
      unfolding h_def by auto
    have y: "fl x = of_int h * 2 powi (e - 52 + 1)"
    proof -
      have "(2::real) powi (e - 52 + 1) = 2 powi (e - 52) * 2 powi 1"
        by (rule power_int_add) simp
      then show ?thesis unfolding f h u_def by simp
    qed
    have ay: "\<bar>fl x\<bar> = 2 powi (e + 1)"
    proof -
      have "\<bar>fl x\<bar> = \<bar>real_of_int m\<bar> * u" unfolding f using u by (simp add: abs_mult)
      also have "\<bar>real_of_int m\<bar> = 2 ^ 53"
        using True by (metis of_int_abs of_int_numeral of_int_power)
      finally show ?thesis using top by (simp add: mult.commute)
    qed
    then have nz: "fl x \<noteq> 0"
      by (metis abs_zero power_int_eq_0_iff zero_neq_numeral)
    have "(2::real) powi (e + 1) < 2 powi (e + 2)"
      by (intro power_int_strict_increasing) simp_all
    with ay binade_less [OF nz, of "e + 2"] binade_ge [OF nz, of "e + 1"]
    have "binade (fl x) = e + 1" by simp
    with e1022 have "max (binade (fl x)) (- 1022) - 52 \<le> e - 52 + 1" by simp
    from fl_exact [OF y this] show ?thesis .
  next
    case False
    with mb have ml: "\<bar>m\<bar> < 2 ^ 53" by (auto simp: abs_if split: if_splits)
    show ?thesis
    proof (cases "m = 0")
      case True
      then show ?thesis unfolding f by (simp add: fl_zero)
    next
      case mnz: False
      have nz: "fl x \<noteq> 0" unfolding f using mnz u by simp
      have "\<bar>real_of_int m\<bar> < 2 ^ 53"
        using ml by (metis of_int_abs of_int_less_iff of_int_numeral of_int_power)
      then have "\<bar>fl x\<bar> < u * 2 ^ 53"
        unfolding f using u by (simp add: abs_mult mult.commute)
      then have "binade (fl x) < e + 1"
        unfolding top by (rule binade_less [OF nz])
      with e1022 have "max (binade (fl x)) (- 1022) - 52 \<le> e - 52" by simp
      from fl_exact [OF f [unfolded u_def] this] show ?thesis .
    qed
  qed
qed

lemma fl_error_pow:
  assumes "\<bar>x\<bar> < 2 ^ n"
  shows "\<bar>fl x - x\<bar> \<le> 2 ^ n / 2 ^ 53"
proof (cases "x = 0")
  case True
  then show ?thesis by (simp add: fl_zero)
next
  case False
  have "\<bar>x\<bar> < 2 powi (int n)" using assms by simp
  from binade_less [OF False this] have b: "binade x < int n" .
  have "max (binade x) (- 1022) - 53 \<le> int n - 53" using b by simp
  then have "(2::real) powi (max (binade x) (- 1022) - 53) \<le> 2 powi (int n - 53)"
    by (intro power_int_increasing) simp_all
  also have "\<dots> = 2 ^ n / 2 ^ 53"
    by (simp add: power_int_diff)
  finally show ?thesis using fl_error [OF False] by linarith
qed

lemma fl_step:
  assumes "\<bar>v - e\<bar> \<le> d" "\<bar>v\<bar> < 2 ^ n"
  shows "\<bar>fl v - e\<bar> \<le> d + 2 ^ n / 2 ^ 53"
  using fl_error_pow [OF assms(2)] assms(1) by linarith

text \<open>Bounds on \<open>pi\<close>, from the Taylor polynomial of the cosine near its first zero.\<close>

lemma cos_pos_less_pi_half:
  assumes "0 \<le> x" "x \<le> 2" "0 < cos x"
  shows "x < pi / 2"
proof (rule ccontr)
  assume "\<not> x < pi / 2"
  then have "pi / 2 \<le> x" by simp
  moreover have "x \<le> pi" using assms(2) pi_ge_two by linarith
  ultimately have "cos x \<le> cos (pi / 2)"
    by (intro cos_monotone_0_pi_le) simp_all
  with assms(3) show False by simp
qed

lemma cos_neg_greater_pi_half:
  assumes "0 \<le> x" "cos x < 0"
  shows "pi / 2 < x"
proof (rule ccontr)
  assume "\<not> pi / 2 < x"
  then have "x \<le> pi / 2" by simp
  moreover have "- (pi / 2) \<le> x" using assms(1) pi_ge_zero by linarith
  ultimately have "0 \<le> cos x" by (rule cos_ge_zero [rotated])
  with assms(2) show False by simp
qed

lemma sum_lessThan_14:
  fixes f :: "nat \<Rightarrow> real"
  shows "(\<Sum>m<14. f m) =
    f 0 + f 1 + f 2 + f 3 + f 4 + f 5 + f 6 + f 7 + f 8 + f 9 + f 10 + f 11 + f 12 + f 13"
  by (simp add: eval_nat_numeral)

lemma cos_taylor_14:
  fixes x :: real
  assumes "0 < x"
  shows "\<bar>cos x - (1 - x ^ 2 / 2 + x ^ 4 / 24 - x ^ 6 / 720 + x ^ 8 / 40320
        - x ^ 10 / 3628800 + x ^ 12 / 479001600)\<bar> \<le> x ^ 14 / 87178291200"
proof -
  from Maclaurin_cos_expansion2 [OF assms, of 14] obtain t where
    c: "cos x = (\<Sum>m<14. cos_coeff m * x ^ m) + cos (t + 1 / 2 * real 14 * pi) / fact 14 * x ^ 14"
    by auto
  have s: "(\<Sum>m<14. cos_coeff m * x ^ m) = (1 - x ^ 2 / 2 + x ^ 4 / 24 - x ^ 6 / 720 + x ^ 8 / 40320
        - x ^ 10 / 3628800 + x ^ 12 / 479001600)"
    unfolding sum_lessThan_14 by (simp add: cos_coeff_def fact_numeral)
  have f: "fact 14 = (87178291200 :: real)"
    by (simp add: fact_numeral)
  have "\<bar>cos (t + 1 / 2 * real 14 * pi)\<bar> * x ^ 14 \<le> 1 * x ^ 14"
    using assms by (intro mult_right_mono) simp_all
  then have "\<bar>cos (t + 1 / 2 * real 14 * pi) / 87178291200 * x ^ 14\<bar> \<le> x ^ 14 / 87178291200"
    using assms by (simp add: abs_mult)
  then show ?thesis
    unfolding c s f by simp
qed

lemma cos_taylor_14_bounds:
  fixes x :: real
  assumes "0 < x"
  shows "(1 - x ^ 2 / 2 + x ^ 4 / 24 - x ^ 6 / 720 + x ^ 8 / 40320
        - x ^ 10 / 3628800 + x ^ 12 / 479001600) - x ^ 14 / 87178291200 \<le> cos x"
    and "cos x \<le> (1 - x ^ 2 / 2 + x ^ 4 / 24 - x ^ 6 / 720 + x ^ 8 / 40320
        - x ^ 10 / 3628800 + x ^ 12 / 479001600) + x ^ 14 / 87178291200"
  using cos_taylor_14 [OF assms] by (simp_all only: abs_le_iff) linarith+

lemma pi_bounds: "3.1415926 < pi \<and> pi < 3.1415927"
proof
  have p: "(0::real) < 1.5707963" by simp
  have "(0::real) < (1 - 1.5707963 ^ 2 / 2 + 1.5707963 ^ 4 / 24 - 1.5707963 ^ 6 / 720 + 1.5707963 ^ 8 / 40320
        - 1.5707963 ^ 10 / 3628800 + 1.5707963 ^ 12 / 479001600) - 1.5707963 ^ 14 / 87178291200"
    by (simp add: power_divide)
  with cos_taylor_14_bounds(1) [OF p] have "0 < cos (1.5707963 :: real)"
    by linarith
  from cos_pos_less_pi_half [OF _ _ this] show "3.1415926 < pi" by simp
next
  have p: "(0::real) < 1.57079635" by simp
  have "(1 - 1.57079635 ^ 2 / 2 + 1.57079635 ^ 4 / 24 - 1.57079635 ^ 6 / 720 + 1.57079635 ^ 8 / 40320
        - 1.57079635 ^ 10 / 3628800 + 1.57079635 ^ 12 / 479001600) + 1.57079635 ^ 14 / 87178291200 < (0::real)"
    by (simp add: power_divide)
  with cos_taylor_14_bounds(2) [OF p] have "cos (1.57079635 :: real) < 0"
    by linarith
  from cos_neg_greater_pi_half [OF _ this] show "pi < 3.1415927" by simp
qed

section \<open>Rounding and rotation\<close>



lemma py_round_grid: "\<exists>k. py_round v 2 = of_int k / 100"
  by (simp add: py_round_def)

lemma rotate_point_zero_angle: "rotate_point x y cx cy 0 = (py_round x 2, py_round y 2)"
  by (simp add: rotate_point_def radians_def Let_def)

text \<open>The constants of \<^verbatim>\<open>math.radians\<close> and the rotation by 0 degrees in double precision.\<close>

lemma math_pi_value: "math_pi = 884279719003555 / 2 ^ 48"
  unfolding math_pi_def by (simp add: fl_eval)

lemma math_radians_90: "math_radians 90 = 884279719003555 / 2 ^ 49"
  unfolding math_radians_def float_ops math_pi_value by (simp add: fl_eval)

lemma math_radians_0: "math_radians 0 = 0"
  unfolding math_radians_def float_ops by (simp add: fl_zero)

lemma fl_one: "fl 1 = 1" "fl (- 1) = - 1"
  by (simp_all add: fl_eval)

lemma rotate_point_float_zero:
  assumes "math_cos 0 = 1" "math_sin 0 = 0"
  shows "rotate_point_float math_cos math_sin x y cx cy 0 =
     (round_float (float_add (float_sub x cx) cx) 2,
      round_float (float_add (float_sub y cy) cy) 2)"
  unfolding rotate_point_float_def Let_def math_radians_0 assms
  by (simp add: float_ops fl_zero fl_idem)

text \<open>The documented rotation of \<open>(1, 1)\<close> by 90 degrees: the cosine of the radians is
  small and the sine close to 1, so both coordinates round to an integer.\<close>

lemma round_half_even_snap:
  assumes "\<bar>w - of_int k\<bar> < 1 / 2"
  shows "round_half_even w = k"
proof (cases "of_int k \<le> w")
  case True
  with assms have "\<lfloor>w\<rfloor> = k" by (intro floor_unique) (simp_all add: abs_if split: if_splits)
  with assms True show ?thesis
    by (simp add: round_half_even_def Let_def abs_if split: if_splits)
next
  case False
  with assms have "\<lfloor>w\<rfloor> = k - 1" by (intro floor_unique) (simp_all add: abs_if split: if_splits)
  with assms False show ?thesis
    by (simp add: round_half_even_def Let_def abs_if split: if_splits)
qed

lemma py_round_snap:
  assumes "\<bar>v - of_int k / 100\<bar> < 1 / 200"
  shows "py_round v 2 = of_int k / 100"
proof -
  have "\<bar>v * 100 - of_int k\<bar> = \<bar>v - of_int k / 100\<bar> * 100"
    by (simp add: abs_if split: if_splits)
  with assms have "\<bar>v * 100 - of_int k\<bar> < 1 / 2" by simp
  from round_half_even_snap [OF this] show ?thesis
    by (simp add: py_round_def)
qed

lemma trig_near_right_angle:
  fixes r :: real
  assumes "\<bar>pi / 2 - r\<bar> \<le> 1 / 10 ^ 6"
  shows "\<bar>cos r\<bar> \<le> 1 / 10 ^ 6" and "\<bar>sin r - 1\<bar> \<le> 1 / 10 ^ 6"
proof -
  define d where "d = pi / 2 - r"
  have d: "\<bar>d\<bar> \<le> 1 / 10 ^ 6" using assms by (simp add: d_def)
  have c: "cos r = sin d" unfolding d_def by (simp add: sin_diff)
  have s: "sin r = cos d" unfolding d_def by (simp add: cos_diff)
  have "\<bar>sin d\<bar> \<le> \<bar>d\<bar>" by (rule abs_sin_x_le_abs_x)
  with d show "\<bar>cos r\<bar> \<le> 1 / 10 ^ 6" unfolding c by linarith
  have h: "\<bar>sin (d / 2)\<bar> \<le> 1 / 10 ^ 6"
    using abs_sin_x_le_abs_x [of "d / 2"] d by linarith
  have "cos d = 1 - 2 * (sin (d / 2))\<^sup>2"
    using cos_double_sin [of "d / 2"] by simp
  moreover have "(sin (d / 2))\<^sup>2 \<le> (1 / 10 ^ 6)\<^sup>2"
    using h by (metis abs_ge_zero power2_abs power_mono)
  moreover have "0 \<le> (sin (d / 2))\<^sup>2" by simp
  ultimately show "\<bar>sin r - 1\<bar> \<le> 1 / 10 ^ 6"
    unfolding s by (simp add: abs_if power_divide split: if_splits)
qed

lemma math_radians_90_near: "\<bar>pi / 2 - math_radians 90\<bar> \<le> 1 / 10 ^ 6"
  unfolding math_radians_90 using pi_bounds by (simp add: abs_if split: if_splits)

lemma rotate_point_float_golden:
  assumes c: "\<And>t. \<bar>math_cos t - cos t\<bar> \<le> 1 / 2 ^ 50"
    and s: "\<And>t. \<bar>math_sin t - sin t\<bar> \<le> 1 / 2 ^ 50"
  shows "rotate_point_float math_cos math_sin 1 1 0 0 90 = (- 1, 1)"
proof -
  define co where "co = math_cos (math_radians 90)"
  define si where "si = math_sin (math_radians 90)"
  from trig_near_right_angle [OF math_radians_90_near] c [of "math_radians 90"]
    s [of "math_radians 90"]
  have cb: "\<bar>co\<bar> \<le> 2 / 10 ^ 6" and sb: "\<bar>si - 1\<bar> \<le> 2 / 10 ^ 6"
    unfolding co_def si_def by (simp_all add: abs_if split: if_splits)
  define a where "a = fl co"
  define b where "b = fl si"
  have a: "\<bar>a - co\<bar> \<le> 1 / 2 ^ 53"
    unfolding a_def using cb by (intro fl_error_small) simp
  have b: "\<bar>b - si\<bar> \<le> 1 / 2 ^ 53"
    unfolding b_def using sb by (intro fl_error_small) (simp add: abs_if split: if_splits)
  define rx where "rx = fl (a - b)"
  define ry where "ry = fl (b + a)"
  have ab: "\<bar>a - b + 1\<bar> \<le> 5 / 10 ^ 6" "\<bar>b + a - 1\<bar> \<le> 5 / 10 ^ 6"
    using a b cb sb by (simp_all add: abs_if split: if_splits)
  have "\<bar>rx - (a - b)\<bar> \<le> 1 / 2 ^ 53"
    unfolding rx_def using ab by (intro fl_error_small) (simp add: abs_if split: if_splits)
  with ab have rx: "\<bar>rx - of_int (- 100) / 100\<bar> < 1 / 200"
    by (simp add: abs_if split: if_splits)
  have "\<bar>ry - (b + a)\<bar> \<le> 1 / 2 ^ 53"
    unfolding ry_def using ab by (intro fl_error_small) (simp add: abs_if split: if_splits)
  with ab have ry: "\<bar>ry - of_int 100 / 100\<bar> < 1 / 200"
    by (simp add: abs_if split: if_splits)
  have frx: "fl rx = rx" unfolding rx_def by (rule fl_idem)
  have fry: "fl ry = ry" unfolding ry_def by (rule fl_idem)
  have "rotate_point_float math_cos math_sin 1 1 0 0 90 =
      (fl (py_round (fl rx) 2), fl (py_round (fl ry) 2))"
    unfolding rotate_point_float_def Let_def float_ops round_float_def rx_def ry_def a_def b_def
      co_def si_def
    by (simp add: fl_one)
  also have "\<dots> = (- 1, 1)"
    unfolding frx fry py_round_snap [OF rx] py_round_snap [OF ry] by (simp add: fl_one)
  finally show ?thesis .
qed

text \<open>The distance of the result in double precision from the point rotated exactly.\<close>

lemma prod_error:
  fixes a b a' b' :: real
  assumes "\<bar>a - a'\<bar> \<le> da" "\<bar>b - b'\<bar> \<le> db" "\<bar>a\<bar> \<le> A" "\<bar>b'\<bar> \<le> B"
  shows "\<bar>a * b - a' * b'\<bar> \<le> A * db + da * B"
proof -
  have e: "a * b - a' * b' = a * (b - b') + (a - a') * b'"
    by (simp add: algebra_simps)
  have "\<bar>a * (b - b')\<bar> \<le> A * db"
    unfolding abs_mult using assms by (intro mult_mono) simp_all
  moreover have "\<bar>(a - a') * b'\<bar> \<le> da * B"
    unfolding abs_mult using assms by (intro mult_mono) simp_all
  ultimately show ?thesis unfolding e by linarith
qed

lemma cos_lipschitz: "\<bar>cos r - cos t\<bar> \<le> \<bar>r - t\<bar>" for r t :: real
proof -
  have "\<bar>cos r - cos t\<bar> = 2 * \<bar>sin ((r + t) / 2)\<bar> * \<bar>sin ((t - r) / 2)\<bar>"
    by (simp add: cos_diff_cos abs_mult)
  also have "\<dots> \<le> 2 * 1 * \<bar>(t - r) / 2\<bar>"
    by (intro mult_mono abs_sin_x_le_abs_x) simp_all
  finally show ?thesis by simp
qed

lemma sin_lipschitz: "\<bar>sin r - sin t\<bar> \<le> \<bar>r - t\<bar>" for r t :: real
proof -
  have "\<bar>sin r - sin t\<bar> = 2 * \<bar>sin ((r - t) / 2)\<bar> * \<bar>cos ((r + t) / 2)\<bar>"
    by (simp add: sin_diff_sin abs_mult)
  also have "\<dots> \<le> 2 * \<bar>(r - t) / 2\<bar> * 1"
    by (intro mult_mono abs_sin_x_le_abs_x) simp_all
  finally show ?thesis by simp
qed

lemma py_round_near: "\<bar>py_round v 2 - v\<bar> \<le> 1 / 200"
proof -
  have "\<bar>of_int (round_half_even (v * 100)) - v * 100\<bar> \<le> 1 / 2"
    by (rule round_half_even_near)
  then show ?thesis
    by (simp add: py_round_def field_simps)
qed

lemma abs_mult_le:
  fixes a b :: real
  assumes "\<bar>a\<bar> \<le> A" "\<bar>b\<bar> \<le> B"
  shows "\<bar>a * b\<bar> \<le> A * B"
  unfolding abs_mult using assms by (intro mult_mono) simp_all

lemma fl_small_step:
  assumes "\<bar>v - e\<bar> \<le> d" "\<bar>v\<bar> < 8192"
  shows "\<bar>fl v - e\<bar> \<le> d + 1 / 1000000000000"
proof -
  have p: "\<bar>v\<bar> < 2 ^ 13" using assms(2) by simp
  have "(2::real) ^ 13 / 2 ^ 53 \<le> 1 / 1000000000000" by simp
  with fl_step [OF assms(1) p] show ?thesis by linarith
qed

lemma float_radians_constant: "float_div math_pi 180 = 5030569068109113 / 2 ^ 58"
  by (simp add: math_pi_value float_ops fl_eval)

lemma math_radians_near:
  assumes "\<bar>angle\<bar> \<le> 360"
  shows "\<bar>math_radians angle - angle * pi / 180\<bar> \<le> 3 / 10000000"
proof -
  define K :: real where "K = 5030569068109113 / 2 ^ 58"
  have k: "3.1415926 < 180 * K" "180 * K < 3.1415927"
    by (simp_all add: K_def)
  with pi_bounds have "\<bar>180 * K - pi\<bar> \<le> 1 / 10000000"
    by (simp add: abs_if)
  then have kp: "\<bar>K - pi / 180\<bar> \<le> 6 / 10000000000"
    by (simp add: abs_if split: if_splits)
  have k2: "\<bar>K\<bar> \<le> 2 / 100" "0 \<le> K"
    by (simp_all add: K_def)
  have e: "angle * K - angle * pi / 180 = angle * (K - pi / 180)"
    by (simp add: algebra_simps)
  have "\<bar>angle * (K - pi / 180)\<bar> \<le> 360 * (6 / 10000000000)"
    using assms kp by (rule abs_mult_le)
  then have d: "\<bar>angle * K - angle * pi / 180\<bar> \<le> 216 / 1000000000"
    unfolding e by simp
  have "\<bar>angle * K\<bar> \<le> 360 * (2 / 100)"
    using assms k2(1) by (rule abs_mult_le)
  then have m: "\<bar>angle * K\<bar> < 8192" by simp
  have "math_radians angle = fl (angle * K)"
    by (simp add: math_radians_def float_radians_constant K_def float_mul_def)
  with fl_small_step [OF d m] show ?thesis by simp
qed

lemma rotated_component_error:
  fixes tx ty C S u v c s cc :: real
  assumes tx: "\<bar>tx - u\<bar> \<le> 1 / 1000000000000" and ty: "\<bar>ty - v\<bar> \<le> 1 / 1000000000000"
    and u: "\<bar>u\<bar> \<le> 2000" and v: "\<bar>v\<bar> \<le> 2000"
    and C: "\<bar>C - c\<bar> \<le> 4 / 10000000" and S: "\<bar>S - s\<bar> \<le> 4 / 10000000"
    and c: "\<bar>c\<bar> \<le> 1" and s: "\<bar>s\<bar> \<le> 1" and cc: "\<bar>cc\<bar> \<le> 1000"
  shows "\<bar>round_float (float_add (float_sub (float_mul tx C) (float_mul ty S)) cc) 2
           - (u * c - v * s + cc)\<bar> \<le> 1 / 100"
    and "\<bar>round_float (float_add (float_add (float_mul tx S) (float_mul ty C)) cc) 2
           - (u * s + v * c + cc)\<bar> \<le> 1 / 100"
proof -
  have prod: "\<bar>fl (a * B) - a' * b'\<bar> \<le> 9 / 10000 \<and> \<bar>a' * b'\<bar> \<le> 2000"
    if "\<bar>a - a'\<bar> \<le> 1 / 1000000000000" "\<bar>a'\<bar> \<le> 2000" "\<bar>B - b'\<bar> \<le> 4 / 10000000" "\<bar>b'\<bar> \<le> 1"
    for a a' B b' :: real
  proof -
    have ab: "\<bar>a\<bar> \<le> 2001" using that by linarith
    have Bb: "\<bar>B\<bar> \<le> 2" using that by linarith
    have "\<bar>a * B - a' * b'\<bar> \<le> 2001 * (4 / 10000000) + 1 / 1000000000000 * 1"
      using that(1) that(3) ab that(4) by (rule prod_error)
    then have d: "\<bar>a * B - a' * b'\<bar> \<le> 81 / 100000" by simp
    have "\<bar>a * B\<bar> \<le> 2001 * 2" using ab Bb by (rule abs_mult_le)
    then have m: "\<bar>a * B\<bar> < 8192" by simp
    have "\<bar>a' * b'\<bar> \<le> 2000 * 1" using that(2) that(4) by (rule abs_mult_le)
    with fl_small_step [OF d m] show ?thesis by simp
  qed
  note p1 = prod [OF tx u C c] and p2 = prod [OF ty v S s]
    and p3 = prod [OF tx u S s] and p4 = prod [OF ty v C c]
  have fin: "\<bar>round_float (fl (w + cc)) 2 - (e + cc)\<bar> \<le> 1 / 100"
    if "\<bar>w - e\<bar> \<le> 2 / 1000" "\<bar>e\<bar> \<le> 4000" for w e :: real
  proof -
    have d: "\<bar>(w + cc) - (e + cc)\<bar> \<le> 2 / 1000" using that by simp
    have m: "\<bar>w + cc\<bar> < 8192" using that cc by (simp add: abs_if split: if_splits)
    note a = fl_small_step [OF d m]
    have b: "\<bar>py_round (fl (w + cc)) 2 - (e + cc)\<bar> \<le> 2 / 1000 + 1 / 1000000000000 + 1 / 200"
      using a py_round_near [of "fl (w + cc)"] by linarith
    have "\<bar>py_round (fl (w + cc)) 2\<bar> < 8192"
      using b that cc by (simp add: abs_if split: if_splits)
    from fl_small_step [OF b this] show ?thesis
      unfolding round_float_def by simp
  qed
  have s1: "\<bar>fl (fl (tx * C) - fl (ty * S)) - (u * c - v * s)\<bar> \<le> 2 / 1000"
  proof -
    have d: "\<bar>(fl (tx * C) - fl (ty * S)) - (u * c - v * s)\<bar> \<le> 18 / 10000"
      using p1 p2 by linarith
    have m: "\<bar>fl (tx * C) - fl (ty * S)\<bar> < 8192"
      using p1 p2 by (simp add: abs_if split: if_splits)
    from fl_small_step [OF d m] show ?thesis by simp
  qed
  have s2: "\<bar>fl (fl (tx * S) + fl (ty * C)) - (u * s + v * c)\<bar> \<le> 2 / 1000"
  proof -
    have d: "\<bar>(fl (tx * S) + fl (ty * C)) - (u * s + v * c)\<bar> \<le> 18 / 10000"
      using p3 p4 by linarith
    have m: "\<bar>fl (tx * S) + fl (ty * C)\<bar> < 8192"
      using p3 p4 by (simp add: abs_if split: if_splits)
    from fl_small_step [OF d m] show ?thesis by simp
  qed
  have e1: "\<bar>u * c - v * s\<bar> \<le> 4000" using p1 p2 by linarith
  have e2: "\<bar>u * s + v * c\<bar> \<le> 4000" using p3 p4 by linarith
  show "\<bar>round_float (float_add (float_sub (float_mul tx C) (float_mul ty S)) cc) 2
           - (u * c - v * s + cc)\<bar> \<le> 1 / 100"
    unfolding float_ops using fin [OF s1 e1] .
  show "\<bar>round_float (float_add (float_add (float_mul tx S) (float_mul ty C)) cc) 2
           - (u * s + v * c + cc)\<bar> \<le> 1 / 100"
    unfolding float_ops using fin [OF s2 e2] .
qed

lemma rotate_point_float_accuracy:
  assumes acc: "\<And>t. \<bar>math_cos t - cos t\<bar> \<le> 1 / 2 ^ 50" "\<And>t. \<bar>math_sin t - sin t\<bar> \<le> 1 / 2 ^ 50"
    and b: "\<bar>x\<bar> \<le> 1000" "\<bar>y\<bar> \<le> 1000" "\<bar>cx\<bar> \<le> 1000" "\<bar>cy\<bar> \<le> 1000" "\<bar>angle\<bar> \<le> 360"
  shows "\<bar>fst (rotate_point_float math_cos math_sin x y cx cy angle)
           - ((x - cx) * cos (angle * pi / 180) - (y - cy) * sin (angle * pi / 180) + cx)\<bar>
         \<le> 1 / 100"
    and "\<bar>snd (rotate_point_float math_cos math_sin x y cx cy angle)
           - ((x - cx) * sin (angle * pi / 180) + (y - cy) * cos (angle * pi / 180) + cy)\<bar>
         \<le> 1 / 100"
proof -
  note r = math_radians_near [OF b(5)]
  have C: "\<bar>math_cos (math_radians angle) - cos (angle * pi / 180)\<bar> \<le> 4 / 10000000"
  proof -
    have "(1::real) / 2 ^ 50 \<le> 1 / 10000000" by simp
    with acc(1) [of "math_radians angle"] cos_lipschitz [of "math_radians angle" "angle * pi / 180"] r
    show ?thesis by linarith
  qed
  have S: "\<bar>math_sin (math_radians angle) - sin (angle * pi / 180)\<bar> \<le> 4 / 10000000"
  proof -
    have "(1::real) / 2 ^ 50 \<le> 1 / 10000000" by simp
    with acc(2) [of "math_radians angle"] sin_lipschitz [of "math_radians angle" "angle * pi / 180"] r
    show ?thesis by linarith
  qed
  have u: "\<bar>x - cx\<bar> \<le> 2000" using b by linarith
  have v: "\<bar>y - cy\<bar> \<le> 2000" using b by linarith
  have tx: "\<bar>float_sub x cx - (x - cx)\<bar> \<le> 1 / 1000000000000"
  proof -
    have "\<bar>x - cx\<bar> < 8192" using u by simp
    from fl_small_step [OF _ this, of "x - cx" 0] show ?thesis by (simp add: float_sub_def)
  qed
  have ty: "\<bar>float_sub y cy - (y - cy)\<bar> \<le> 1 / 1000000000000"
  proof -
    have "\<bar>y - cy\<bar> < 8192" using v by simp
    from fl_small_step [OF _ this, of "y - cy" 0] show ?thesis by (simp add: float_sub_def)
  qed
  note e = rotated_component_error [OF tx ty u v C S abs_cos_le_one abs_sin_le_one]
  show "\<bar>fst (rotate_point_float math_cos math_sin x y cx cy angle)
           - ((x - cx) * cos (angle * pi / 180) - (y - cy) * sin (angle * pi / 180) + cx)\<bar>
         \<le> 1 / 100"
    using e(1) [OF b(3)] by (simp add: rotate_point_float_def Let_def)
  show "\<bar>snd (rotate_point_float math_cos math_sin x y cx cy angle)
           - ((x - cx) * sin (angle * pi / 180) + (y - cy) * cos (angle * pi / 180) + cy)\<bar>
         \<le> 1 / 100"
    using e(2) [OF b(4)] by (simp add: rotate_point_float_def Let_def)
qed

text \<open>For floats and the rotation by 0 degrees about the origin, which is how the arcs
  and the ellipses are tilted, the result in double precision is the double nearest to
  the result read exactly.\<close>

lemma rotate_point_float_origin:
  assumes "math_cos 0 = 1" "math_sin 0 = 0"
  shows "rotate_point_float math_cos math_sin (fl x) (fl y) 0 0 0 =
     (fl (fst (rotate_point (fl x) (fl y) 0 0 0)), fl (snd (rotate_point (fl x) (fl y) 0 0 0)))"
  unfolding rotate_point_float_zero [where math_cos = math_cos and math_sin = math_sin, OF assms]
    rotate_point_zero_angle
  by (simp add: float_ops fl_idem round_float_def)

lemma rounded_libm_zero: "rounded_cos 0 = 1" "rounded_sin 0 = 0"
  by (simp_all add: rounded_cos_def rounded_sin_def fl_one fl_zero)

lemma rounded_libm_accurate:
  "\<bar>rounded_cos t - cos t\<bar> \<le> 1 / 2 ^ 50" "\<bar>rounded_sin t - sin t\<bar> \<le> 1 / 2 ^ 50"
proof -
  have c: "\<bar>cos t\<bar> < 2" using abs_cos_le_one [of t] by linarith
  have s: "\<bar>sin t\<bar> < 2" using abs_sin_le_one [of t] by linarith
  have "(1::real) / 2 ^ 53 \<le> 1 / 2 ^ 50" by simp
  with fl_error_small [OF c] fl_error_small [OF s]
  show "\<bar>rounded_cos t - cos t\<bar> \<le> 1 / 2 ^ 50" "\<bar>rounded_sin t - sin t\<bar> \<le> 1 / 2 ^ 50"
    unfolding rounded_cos_def rounded_sin_def by linarith+
qed

text \<open>The claim of C8 as the specification words it: for every \<open>x\<close>, \<open>y\<close>, \<open>cx\<close>, \<open>cy\<close>
  the rotation by 0 degrees would be \<open>(round(x, 2), round(y, 2))\<close>. In double precision
  \<open>(x - cx) + cx\<close> need not be \<open>x\<close>: for \<open>x\<close> the double nearest to 0.025, \<open>y = 0\<close> and
  the centre \<open>(2, 0)\<close>, the code returns the double nearest to 0.02, where
  \<open>round(x, 2)\<close> is the double nearest to 0.03.\<close>

theorem rotate_point_zero_identity_counterexample:
  "rotate_point_float rounded_cos rounded_sin (3602879701896397 / 2 ^ 57) 0 2 0 0 =
     (5764607523034235 / 2 ^ 58, 0) \<and>
   (round_float (3602879701896397 / 2 ^ 57) 2, round_float 0 2) =
     (1080863910568919 / 2 ^ 55, 0) \<and>
   rotate_point_float rounded_cos rounded_sin (3602879701896397 / 2 ^ 57) 0 2 0 0 \<noteq>
     (round_float (3602879701896397 / 2 ^ 57) 2, round_float 0 2)"
proof -
  have a: "float_add (float_sub (3602879701896397 / 2 ^ 57) 2) 2 = 56294995342131 / 2 ^ 51"
    by (simp add: float_ops fl_eval)
  have b: "round_float (56294995342131 / 2 ^ 51) 2 = 5764607523034235 / 2 ^ 58"
    by (simp add: round_float_def py_round_def fl_eval)
  have c: "round_float (3602879701896397 / 2 ^ 57) 2 = 1080863910568919 / 2 ^ 55"
    by (simp add: round_float_def py_round_def fl_eval)
  have d: "round_float (float_add (float_sub 0 0) 0) 2 = 0" "round_float 0 2 = 0"
    by (simp_all add: round_float_def py_round_def float_ops fl_zero round_half_even_def)
  show ?thesis
    unfolding rotate_point_float_zero
        [where math_cos = rounded_cos and math_sin = rounded_sin, OF rounded_libm_zero]
      a b c d
    by simp
qed

text \<open>
  Claim C8, amended. \<^verbatim>\<open>rotate_point\<close> takes the point relative to the centre, applies the
  rotation matrix of the angle in radians (degrees times \<open>pi / 180\<close>), translates back
  and rounds each coordinate to two decimal places, every operation rounded to double
  precision: each coordinate of the result is the double nearest to a multiple of
  \<open>1/100\<close>. \<^verbatim>\<open>rotate_point(1, 1, 0, 0, 90)\<close> is \<open>(-1, 1)\<close>. For all \<open>x\<close>, \<open>y\<close>, \<open>cx\<close>, \<open>cy\<close>
  the rotation by 0 degrees is \<open>(round((x - cx) + cx, 2), round((y - cy) + cy, 2))\<close>, the
  subtraction and the addition in double precision; about the origin it is
  \<open>(round(x, 2), round(y, 2))\<close> for all floats \<open>x\<close> and \<open>y\<close>. For an angle of at most 360
  degrees in size the radians of the code are within \<open>3 / 10 ^ 7\<close> of
  \<open>angle * pi / 180\<close>, and when the coordinates are at most 1000 in size as well, each
  coordinate of the result is within \<open>1/100\<close> of the coordinate of the point rotated
  exactly by \<open>angle * pi / 180\<close> about the centre. The math library is one whose
  cosine and sine are exact at 0 and within \<open>1 / 2 ^ 50\<close> of the exact values, and the
  arguments are at most \<open>2 ^ 1000\<close> in size, so that nothing overflows.
\<close>

theorem rotate_point_float_rounded_rotation:
  assumes zero: "math_cos 0 = 1 \<and> math_sin 0 = 0"
    and accurate: "\<forall>t. \<bar>math_cos t - cos t\<bar> \<le> 1 / 2 ^ 50 \<and> \<bar>math_sin t - sin t\<bar> \<le> 1 / 2 ^ 50"
    and finite: "\<bar>x\<bar> \<le> 2 ^ 1000 \<and> \<bar>y\<bar> \<le> 2 ^ 1000 \<and> \<bar>cx\<bar> \<le> 2 ^ 1000 \<and> \<bar>cy\<bar> \<le> 2 ^ 1000"
  shows "rotate_point_float math_cos math_sin x y cx cy angle =
       (round_float
          (float_add
             (float_sub (float_mul (float_sub x cx) (math_cos (math_radians angle)))
                (float_mul (float_sub y cy) (math_sin (math_radians angle))))
             cx) 2,
        round_float
          (float_add
             (float_add (float_mul (float_sub x cx) (math_sin (math_radians angle)))
                (float_mul (float_sub y cy) (math_cos (math_radians angle))))
             cy) 2) \<and>
     (\<exists>k. fst (rotate_point_float math_cos math_sin x y cx cy angle) = fl (of_int k / 100)) \<and>
     (\<exists>k. snd (rotate_point_float math_cos math_sin x y cx cy angle) = fl (of_int k / 100)) \<and>
     (\<bar>angle\<bar> \<le> 360 \<longrightarrow> \<bar>math_radians angle - angle * pi / 180\<bar> \<le> 3 / 10 ^ 7) \<and>
     (\<bar>x\<bar> \<le> 1000 \<and> \<bar>y\<bar> \<le> 1000 \<and> \<bar>cx\<bar> \<le> 1000 \<and> \<bar>cy\<bar> \<le> 1000 \<and> \<bar>angle\<bar> \<le> 360 \<longrightarrow>
        \<bar>fst (rotate_point_float math_cos math_sin x y cx cy angle)
           - ((x - cx) * cos (angle * pi / 180) - (y - cy) * sin (angle * pi / 180) + cx)\<bar>
          \<le> 1 / 100 \<and>
        \<bar>snd (rotate_point_float math_cos math_sin x y cx cy angle)
           - ((x - cx) * sin (angle * pi / 180) + (y - cy) * cos (angle * pi / 180) + cy)\<bar>
          \<le> 1 / 100) \<and>
     rotate_point_float math_cos math_sin 1 1 0 0 90 = (- 1, 1) \<and>
     rotate_point_float math_cos math_sin x y cx cy 0 =
       (round_float (float_add (float_sub x cx) cx) 2,
        round_float (float_add (float_sub y cy) cy) 2) \<and>
     rotate_point_float math_cos math_sin (fl x) (fl y) 0 0 0 =
       (round_float (fl x) 2, round_float (fl y) 2)"
proof -
  have u: "rotate_point_float math_cos math_sin x y cx cy angle =
       (round_float
          (float_add
             (float_sub (float_mul (float_sub x cx) (math_cos (math_radians angle)))
                (float_mul (float_sub y cy) (math_sin (math_radians angle))))
             cx) 2,
        round_float
          (float_add
             (float_add (float_mul (float_sub x cx) (math_sin (math_radians angle)))
                (float_mul (float_sub y cy) (math_cos (math_radians angle))))
             cy) 2)"
    by (simp add: rotate_point_float_def Let_def)
  have g: "\<exists>k. round_float v 2 = fl (of_int k / 100)" for v
  proof -
    from py_round_grid [of v] obtain k where "py_round v 2 = of_int k / 100" ..
    then have "round_float v 2 = fl (of_int k / 100)" by (simp only: round_float_def)
    then show ?thesis ..
  qed
  have g1: "\<exists>k. fst (rotate_point_float math_cos math_sin x y cx cy angle) = fl (of_int k / 100)"
    unfolding u fst_conv by (rule g)
  have g2: "\<exists>k. snd (rotate_point_float math_cos math_sin x y cx cy angle) = fl (of_int k / 100)"
    unfolding u snd_conv by (rule g)
  have r: "\<bar>angle\<bar> \<le> 360 \<longrightarrow> \<bar>math_radians angle - angle * pi / 180\<bar> \<le> 3 / 10 ^ 7"
    using math_radians_near [of angle] by simp
  have a: "\<bar>x\<bar> \<le> 1000 \<and> \<bar>y\<bar> \<le> 1000 \<and> \<bar>cx\<bar> \<le> 1000 \<and> \<bar>cy\<bar> \<le> 1000 \<and> \<bar>angle\<bar> \<le> 360 \<longrightarrow>
        \<bar>fst (rotate_point_float math_cos math_sin x y cx cy angle)
           - ((x - cx) * cos (angle * pi / 180) - (y - cy) * sin (angle * pi / 180) + cx)\<bar>
          \<le> 1 / 100 \<and>
        \<bar>snd (rotate_point_float math_cos math_sin x y cx cy angle)
           - ((x - cx) * sin (angle * pi / 180) + (y - cy) * cos (angle * pi / 180) + cy)\<bar>
          \<le> 1 / 100"
    using accurate
      rotate_point_float_accuracy [where math_cos = math_cos and math_sin = math_sin
        and x = x and y = y and cx = cx and cy = cy and angle = angle]
    by blast
  have golden: "rotate_point_float math_cos math_sin 1 1 0 0 90 = (- 1, 1)"
    using accurate by (intro rotate_point_float_golden) simp_all
  have z: "rotate_point_float math_cos math_sin x y cx cy 0 =
       (round_float (float_add (float_sub x cx) cx) 2,
        round_float (float_add (float_sub y cy) cy) 2)" for x y cx cy
    using zero by (intro rotate_point_float_zero) simp_all
  have o: "rotate_point_float math_cos math_sin (fl x) (fl y) 0 0 0 =
       (round_float (fl x) 2, round_float (fl y) 2)"
    unfolding z by (simp add: float_ops fl_idem)
  from u g1 g2 r a golden z [of x y cx cy] o show ?thesis
    by (intro conjI)
qed

theorem rotate_point_float_rounded_rotation_witness:
  "rotate_point_float rounded_cos rounded_sin 1 1 0 0 90 = (- 1, 1) \<and>
   rotate_point_float rounded_cos rounded_sin (1 / 8) (3 / 8) 0 0 0 =
     (1080863910568919 / 2 ^ 53, 3422735716801577 / 2 ^ 53) \<and>
   rotate_point_float rounded_cos rounded_sin (3602879701896397 / 2 ^ 57) 0 2 0 0 =
     (5764607523034235 / 2 ^ 58, 0) \<and>
   \<bar>math_radians 90 - pi / 2\<bar> \<le> 3 / 10 ^ 7 \<and>
   \<bar>fst (rotate_point_float rounded_cos rounded_sin 1 1 0 0 90) - (- 1)\<bar> \<le> 1 / 100 \<and>
   \<bar>snd (rotate_point_float rounded_cos rounded_sin 1 1 0 0 90) - 1\<bar> \<le> 1 / 100"
proof -
  have z: "rounded_cos 0 = 1 \<and> rounded_sin 0 = 0"
    using rounded_libm_zero by simp
  have a: "\<forall>t. \<bar>rounded_cos t - cos t\<bar> \<le> 1 / 2 ^ 50 \<and> \<bar>rounded_sin t - sin t\<bar> \<le> 1 / 2 ^ 50"
    using rounded_libm_accurate by simp
  have f1: "\<bar>1 / 8 :: real\<bar> \<le> 2 ^ 1000 \<and> \<bar>3 / 8 :: real\<bar> \<le> 2 ^ 1000 \<and>
      \<bar>0 :: real\<bar> \<le> 2 ^ 1000 \<and> \<bar>0 :: real\<bar> \<le> 2 ^ 1000"
    by simp
  have f2: "\<bar>3602879701896397 / 2 ^ 57 :: real\<bar> \<le> 2 ^ 1000 \<and> \<bar>0 :: real\<bar> \<le> 2 ^ 1000 \<and>
      \<bar>2 :: real\<bar> \<le> 2 ^ 1000 \<and> \<bar>0 :: real\<bar> \<le> 2 ^ 1000"
    by simp
  have f3: "\<bar>1 :: real\<bar> \<le> 2 ^ 1000 \<and> \<bar>1 :: real\<bar> \<le> 2 ^ 1000 \<and>
      \<bar>0 :: real\<bar> \<le> 2 ^ 1000 \<and> \<bar>0 :: real\<bar> \<le> 2 ^ 1000"
    by simp
  note t1 = rotate_point_float_rounded_rotation [OF z a f1, where angle = 0]
  note t2 = rotate_point_float_rounded_rotation [OF z a f2, where angle = 0]
  note t3 = rotate_point_float_rounded_rotation [OF z a f3, where angle = 90]
  have e: "fl (1 / 8) = 1 / 8" "fl (3 / 8) = 3 / 8"
    "round_float (1 / 8) 2 = 1080863910568919 / 2 ^ 53"
    "round_float (3 / 8) 2 = 3422735716801577 / 2 ^ 53"
    by (simp_all add: round_float_def py_round_def fl_eval)
  have g: "float_add (float_sub (3602879701896397 / 2 ^ 57) 2) 2 = 56294995342131 / 2 ^ 51"
    "round_float (56294995342131 / 2 ^ 51) 2 = 5764607523034235 / 2 ^ 58"
    "round_float (float_add (float_sub 0 0) 0) 2 = 0"
    by (simp_all add: round_float_def py_round_def float_ops fl_eval)
  have h: "\<bar>1 :: real\<bar> \<le> 1000 \<and> \<bar>1 :: real\<bar> \<le> 1000 \<and> \<bar>0 :: real\<bar> \<le> 1000 \<and> \<bar>0 :: real\<bar> \<le> 1000 \<and>
      \<bar>90 :: real\<bar> \<le> 360"
    by simp
  have h': "\<bar>90 :: real\<bar> \<le> 360"
    by simp
  from t3 have w1: "rotate_point_float rounded_cos rounded_sin 1 1 0 0 90 = (- 1, 1)"
    by blast
  from t1 have w2: "rotate_point_float rounded_cos rounded_sin (fl (1 / 8)) (fl (3 / 8)) 0 0 0 =
      (round_float (fl (1 / 8)) 2, round_float (fl (3 / 8)) 2)"
    by blast
  from t2 have w3: "rotate_point_float rounded_cos rounded_sin
       (3602879701896397 / 2 ^ 57) 0 2 0 0 =
      (round_float (float_add (float_sub (3602879701896397 / 2 ^ 57) 2) 2) 2,
       round_float (float_add (float_sub 0 0) 0) 2)"
    by blast
  from t3 h' have "\<bar>math_radians 90 - 90 * pi / 180\<bar> \<le> 3 / 10 ^ 7"
    by blast
  then have w4: "\<bar>math_radians 90 - pi / 2\<bar> \<le> 3 / 10 ^ 7"
    by simp
  from t3 h have "\<bar>fst (rotate_point_float rounded_cos rounded_sin 1 1 0 0 90)
           - ((1 - 0) * cos (90 * pi / 180) - (1 - 0) * sin (90 * pi / 180) + 0)\<bar> \<le> 1 / 100 \<and>
        \<bar>snd (rotate_point_float rounded_cos rounded_sin 1 1 0 0 90)
           - ((1 - 0) * sin (90 * pi / 180) + (1 - 0) * cos (90 * pi / 180) + 0)\<bar> \<le> 1 / 100"
    by blast
  then have w5: "\<bar>fst (rotate_point_float rounded_cos rounded_sin 1 1 0 0 90) - (- 1)\<bar> \<le> 1 / 100"
    and w6: "\<bar>snd (rotate_point_float rounded_cos rounded_sin 1 1 0 0 90) - 1\<bar> \<le> 1 / 100"
    by simp_all
  from w1 w2 [unfolded e] w3 [unfolded g] w4 w5 w6 show ?thesis
    by (intro conjI)
qed

section \<open>Rectangles\<close>

lemma generic_draw_line_strip_valid:
  "length color = 3 \<or> length color = 4 \<Longrightarrow>
   \<exists>color4. get_four_byte_color color = Inr color4 \<and> length color4 = 4 \<and>
     generic_draw_line_strip point_list color line_width mode gl =
       (Inr (), gl @ [ShaderProgram] @ submission point_list color4 line_width mode)"
  by (auto simp: generic_draw_line_strip_def get_four_byte_color_def)

lemma generic_draw_line_strip_class:
  "fst (generic_draw_line_strip point_list color line_width mode gl) = Inl e \<Longrightarrow>
   class_of e = ValueError"
  by (auto simp: generic_draw_line_strip_def get_four_byte_color_def Let_def split: if_splits)

text \<open>The claim of C1 as the specification words it: the corners of the rectangle of
  centre \<open>(10, 10)\<close>, width 5 and height 7 would be \<open>(8, 7)\<close>, \<open>(12, 7)\<close>, \<open>(12, 13)\<close>,
  \<open>(8, 13)\<close>. The code computes other corners.\<close>

theorem rectangle_corners_counterexample:
  "rectangle_corners 10 10 5 7 \<noteq> ((8, 7), (12, 7), (12, 13), (8, 13))"
  by (simp add: rectangle_corners_def floordiv_def Let_def)

text \<open>
  Claim C1, amended. The four corners are computed by floor division by 2 of the
  \<^emph>\<open>negated\<close> width and height for the left and bottom edges and of the width and height
  for the right and top edges; for centre \<open>(10, 10)\<close>, width 5, height 7 and tilt 0 they
  are \<open>(7, 6)\<close>, \<open>(12, 6)\<close>, \<open>(12, 13)\<close>, \<open>(7, 13)\<close>, and the point list submitted is
  \<open>(p1, p2, p4, p3)\<close> with triangle-strip topology.
\<close>

theorem draw_rectangle_filled_corners:
  "rectangle_corners center_x center_y width height =
     ((of_int \<lfloor>- width / 2\<rfloor> + center_x, of_int \<lfloor>- height / 2\<rfloor> + center_y),
      (of_int \<lfloor>width / 2\<rfloor> + center_x, of_int \<lfloor>- height / 2\<rfloor> + center_y),
      (of_int \<lfloor>width / 2\<rfloor> + center_x, of_int \<lfloor>height / 2\<rfloor> + center_y),
      (of_int \<lfloor>- width / 2\<rfloor> + center_x, of_int \<lfloor>height / 2\<rfloor> + center_y)) \<and>
   rectangle_corners 10 10 5 7 = ((7, 6), (12, 6), (12, 13), (7, 13)) \<and>
   draw_rectangle_filled 10 10 5 7 color 0 gl =
     generic_draw_line_strip [(7, 6), (12, 6), (7, 13), (12, 13)] color 1 GL_TRIANGLE_STRIP gl \<and>
   draw_rectangle_filled 10 10 5 7 [0, 0, 0] 0 [] =
     (Inr (),
      ShaderProgram #
      submission [(7, 6), (12, 6), (7, 13), (12, 13)] [0, 0, 0, 255] 1 GL_TRIANGLE_STRIP)"
proof -
  have c: "rectangle_corners 10 10 5 7 = ((7, 6), (12, 6), (12, 13), (7, 13))"
    by (simp add: rectangle_corners_def floordiv_def Let_def)
  have d: "draw_rectangle_filled 10 10 5 7 col 0 g =
     generic_draw_line_strip [(7, 6), (12, 6), (7, 13), (12, 13)] col 1 GL_TRIANGLE_STRIP g"
    for col g
    by (simp add: draw_rectangle_filled_def tilt_corners_def c)
  have g: "generic_draw_line_strip [(7, 6), (12, 6), (7, 13), (12, 13)] [0, 0, 0] 1
             GL_TRIANGLE_STRIP [] =
     (Inr (),
      ShaderProgram #
      submission [(7, 6), (12, 6), (7, 13), (12, 13)] [0, 0, 0, 255] 1 GL_TRIANGLE_STRIP)"
    by (simp add: generic_draw_line_strip_def get_four_byte_color_def)
  show ?thesis
    unfolding d c g by (simp add: rectangle_corners_def floordiv_def Let_def)
qed

text \<open>
  Claim C6. \<^verbatim>\<open>draw_lrtb_rectangle_filled\<close> raises the \<^verbatim>\<open>AttributeError\<close> of invalid
  bounds whenever \<open>left > right\<close> or \<open>bottom > top\<close>, and then the log of graphics calls
  is as it was: no geometry was computed and no draw submission was made. When
  \<open>left \<le> right\<close> and \<open>bottom \<le> top\<close> the call is that of \<^verbatim>\<open>draw_rectangle_filled\<close> on
  the centre and the size, and no \<^verbatim>\<open>AttributeError\<close> is raised.
\<close>

theorem draw_lrtb_rectangle_filled_bounds:
  "(left > right \<or> bottom > top' \<longrightarrow>
      (\<exists>e. draw_lrtb_rectangle_filled left right top' bottom color gl = (Inl e, gl) \<and>
           class_of e = AttributeError)) \<and>
   (left \<le> right \<and> bottom \<le> top' \<longrightarrow>
      draw_lrtb_rectangle_filled left right top' bottom color gl =
        draw_rectangle_filled ((left + right) / 2) ((top' + bottom) / 2)
          (right - left) (top' - bottom) color 0 gl \<and>
      (\<forall>e. fst (draw_lrtb_rectangle_filled left right top' bottom color gl) = Inl e \<longrightarrow>
           class_of e \<noteq> AttributeError))"
proof (intro conjI impI)
  assume "left > right \<or> bottom > top'"
  then show "\<exists>e. draw_lrtb_rectangle_filled left right top' bottom color gl = (Inl e, gl) \<and>
           class_of e = AttributeError"
    by (auto simp: draw_lrtb_rectangle_filled_def)
next
  assume ok: "left \<le> right \<and> bottom \<le> top'"
  then show eq: "draw_lrtb_rectangle_filled left right top' bottom color gl =
        draw_rectangle_filled ((left + right) / 2) ((top' + bottom) / 2)
          (right - left) (top' - bottom) color 0 gl"
    by (simp add: draw_lrtb_rectangle_filled_def Let_def)
  show "\<forall>e. fst (draw_lrtb_rectangle_filled left right top' bottom color gl) = Inl e \<longrightarrow>
           class_of e \<noteq> AttributeError"
    unfolding eq draw_rectangle_filled_def
    using generic_draw_line_strip_class by fastforce
qed

theorem draw_lrtb_rectangle_filled_bounds_witness:
  "draw_lrtb_rectangle_filled 2 1 3 1 [0, 0, 0] [] = (Inl (LeftGreaterThanRight 2 1), []) \<and>
   draw_lrtb_rectangle_filled 1 2 3 4 [0, 0, 0] [] = (Inl (BottomGreaterThanTop 4 3), []) \<and>
   draw_calls (snd (draw_lrtb_rectangle_filled 2 1 3 1 [0, 0, 0] [])) = 0 \<and>
   fst (draw_lrtb_rectangle_filled 1 2 3 1 [0, 0, 0] []) = Inr () \<and>
   draw_calls (snd (draw_lrtb_rectangle_filled 1 2 3 1 [0, 0, 0] [])) = 1"
proof -
  have a: "draw_lrtb_rectangle_filled 2 1 3 1 [0, 0, 0] [] = (Inl (LeftGreaterThanRight 2 1), [])"
    using draw_lrtb_rectangle_filled_bounds
      [where left = 2 and right = 1 and top' = 3 and bottom = 1 and color = "[0, 0, 0]"
         and gl = "[]"]
    by (auto simp: draw_lrtb_rectangle_filled_def)
  have b: "draw_lrtb_rectangle_filled 1 2 3 4 [0, 0, 0] [] = (Inl (BottomGreaterThanTop 4 3), [])"
    using draw_lrtb_rectangle_filled_bounds
      [where left = 1 and right = 2 and top' = 3 and bottom = 4 and color = "[0, 0, 0]"
         and gl = "[]"]
    by (auto simp: draw_lrtb_rectangle_filled_def)
  have c: "draw_lrtb_rectangle_filled 1 2 3 1 [0, 0, 0] [] =
      draw_rectangle_filled (3 / 2) 2 1 2 [0, 0, 0] 0 []"
    using draw_lrtb_rectangle_filled_bounds
      [where left = 1 and right = 2 and top' = 3 and bottom = 1 and color = "[0, 0, 0]"
         and gl = "[]"]
    by simp
  show ?thesis
    unfolding a b c
    by (simp add: draw_rectangle_filled_def generic_draw_line_strip_def
        get_four_byte_color_def submission_def draw_calls_def)
qed

section \<open>Arcs\<close>


lemmas segment_eval = start_segment_def end_segment_def py_int_def float_ops fl_eval





text \<open>
  Claim C10. When the computed end segment is smaller than the computed start segment,
  the segment loop of \<^verbatim>\<open>draw_arc_filled\<close> contributes no point and, whatever the tilt,
  the call submits exactly the pivot \<open>(center_x, center_y)\<close> as a triangle fan; with a
  colour of three or four channels no exception is raised.
\<close>

theorem draw_arc_filled_empty_range:
  assumes "end_segment end_angle num_segments < start_segment start_angle num_segments"
    and "length color = 3 \<or> length color = 4"
  shows "arc_unrotated width height start_angle end_angle num_segments = Inr [(0, 0)] \<and>
     draw_arc_filled center_x center_y width height color start_angle end_angle
         tilt_angle num_segments gl =
       generic_draw_line_strip [(center_x, center_y)] color 1 GL_TRIANGLE_FAN gl \<and>
     (\<exists>color4. get_four_byte_color color = Inr color4 \<and>
        draw_arc_filled center_x center_y width height color start_angle end_angle
            tilt_angle num_segments gl =
          (Inr (),
           gl @ [ShaderProgram] @ submission [(center_x, center_y)] color4 1 GL_TRIANGLE_FAN))"
proof -
  have u: "arc_unrotated width height start_angle end_angle num_segments = Inr [(0, 0)]"
    using assms(1) by (simp add: arc_unrotated_def)
  have r: "rotate_point 0 0 0 0 tilt_angle = (0, 0)"
    by (simp add: rotate_point_def Let_def py_round_def round_half_even_def)
  have d: "draw_arc_filled center_x center_y width height color start_angle end_angle
         tilt_angle num_segments gl =
       generic_draw_line_strip [(center_x, center_y)] color 1 GL_TRIANGLE_FAN gl"
    by (simp add: draw_arc_filled_def u uncentered_def rotate_all_def centered_def r)
  from generic_draw_line_strip_valid [OF assms(2)] u d show ?thesis
    by metis
qed

theorem draw_arc_filled_empty_range_witness:
  "end_segment 0 128 < start_segment 180 128 \<and>
   draw_arc_filled 5 6 3 2 [255, 0, 0] 180 0 45 128 [] =
     (Inr (), ShaderProgram # submission [(5, 6)] [255, 0, 0, 255] 1 GL_TRIANGLE_FAN)"
proof -
  have h: "end_segment 0 128 < start_segment 180 128"
    by (simp add: segment_eval)
  have c: "length [255, 0, 0 :: int] = 3 \<or> length [255, 0, 0 :: int] = 4"
    by simp
  have "\<exists>color4. get_four_byte_color [255, 0, 0] = Inr color4 \<and>
      draw_arc_filled 5 6 3 2 [255, 0, 0] 180 0 45 128 [] =
        (Inr (), [] @ [ShaderProgram] @ submission [(5, 6)] color4 1 GL_TRIANGLE_FAN)"
    using draw_arc_filled_empty_range
      [OF h c, where width = 3 and height = 2 and center_x = 5 and center_y = 6
         and tilt_angle = 45 and gl = "[]"]
    by blast
  then show ?thesis
    using h by (auto simp: get_four_byte_color_def)
qed

section \<open>Tilt\<close>




section \<open>Construction of a texture\<close>

text \<open>The claim of C4 as the specification words it: construction would fail unless
  width and height are both greater than zero. A width of zero is accepted.\<close>

theorem Texture_zero_width_counterexample:
  "fst (Texture_init Map.empty 0 0 10 (FileName ''a.png'')) = None \<and>
   Texture 0 0 10 (FileName ''a.png'') \<noteq> Inl WidthLessThanZero \<and>
   Texture 0 0 10 (FileName ''a.png'') \<noteq> Inl HeightLessThanZero \<and>
   \<not> isl (Texture 0 0 10 (FileName ''a.png''))"
  by (simp add: Texture_init_def Texture_def)

text \<open>
  Claim C4, amended. Constructing a \<^verbatim>\<open>Texture\<close> fails, with the \<^verbatim>\<open>ValueError\<close> of an
  invalid dimension, exactly when the width or the height is negative (zero is
  accepted); on failure \<^verbatim>\<open>__init__\<close> leaves the instance as it found it, no attribute
  set, and the constructor expression yields no object. Otherwise the instance carries
  the given identifier, width, height and name.
\<close>

theorem Texture_init_validation:
  "(width < 0 \<or> height < 0 \<longrightarrow>
      (\<exists>e. Texture_init self texture_id width height file_name = (Some e, self) \<and>
           class_of e = ValueError \<and>
           Texture texture_id width height file_name = Inl e)) \<and>
   (0 \<le> width \<and> 0 \<le> height \<longrightarrow>
      fst (Texture_init self texture_id width height file_name) = None \<and>
      (\<exists>obj. Texture texture_id width height file_name = Inr obj \<and>
             obj ''texture_id'' = Some (TextureId texture_id) \<and>
             obj ''width'' = Some (Number width) \<and>
             obj ''height'' = Some (Number height) \<and>
             obj ''texture_name'' = Some (TextureName file_name)))"
  by (auto simp: Texture_init_def Texture_def)

theorem Texture_init_validation_witness:
  "Texture 0 10 (- 10) (FileName ''a.png'') = Inl HeightLessThanZero \<and>
   Texture 0 (- 10) 10 (FileName ''a.png'') = Inl WidthLessThanZero \<and>
   Texture_init Map.empty 0 (- 10) 10 (FileName ''a.png'') =
     (Some WidthLessThanZero, Map.empty) \<and>
   \<not> isl (Texture 0 0 0 (FileName ''a.png'')) \<and>
   \<not> isl (Texture 0 10 10 (FileName ''a.png''))"
  using Texture_init_validation [where width = 10 and height = "- 10" and self = Map.empty
      and texture_id = 0 and file_name = "FileName ''a.png''"]
    Texture_init_validation [where width = "- 10" and height = 10 and self = Map.empty
      and texture_id = 0 and file_name = "FileName ''a.png''"]
    Texture_init_validation [where width = 0 and height = 0 and self = Map.empty
      and texture_id = 0 and file_name = "FileName ''a.png''"]
    Texture_init_validation [where width = 10 and height = 10 and self = Map.empty
      and texture_id = 0 and file_name = "FileName ''a.png''"]
  by (auto simp: Texture_init_def Texture_def)

section \<open>Loading several textures\<close>

lemma Texture_Inr:
  "Texture t wd ht n = Inr obj \<Longrightarrow>
   obj ''width'' = Some (Number wd) \<and> obj ''height'' = Some (Number ht)"
  by (auto simp: Texture_def Texture_init_def split: if_splits)

lemma load_textures_loop_Cons_success:
  assumes "load_textures_loop src ((x, y, wd, ht) # rest) m f s acc w = (Inr refs, w')"
  shows "\<exists>obj. Texture (Suc (textures_generated w)) (of_int wd) (of_int ht)
             (ImageLocation (x, y, wd, ht)) = Inr obj \<and>
     load_textures_loop src rest m f s (acc @ [length (objects w)])
       ((snd (gen_texture w))\<lparr>objects := objects w @ [obj]\<rparr>) = (Inr refs, w')"
  using assms
  by (simp add: Let_def gen_texture_def new_object_def
      split: prod.splits if_splits sum.splits)

lemma upt_first_index: "[n ..< Suc (n + k)] = n # [Suc n ..< Suc (n + k)]"
  by (rule upt_conv_Cons) simp

lemma load_textures_loop_objects:
  "load_textures_loop src locs m f s acc w = (Inr refs, w') \<Longrightarrow>
   \<exists>new. objects w' = objects w @ new \<and>
     refs = acc @ [length (objects w) ..< length (objects w) + length locs] \<and>
     map (\<lambda>obj. (obj ''width'', obj ''height'')) new =
       map (\<lambda>(x, y, wd, ht). (Some (Number (of_int wd)), Some (Number (of_int ht)))) locs"
proof (induction locs arbitrary: acc w)
  case Nil
  then show ?case by simp
next
  case (Cons loc rest)
  obtain x y wd ht where loc: "loc = (x, y, wd, ht)"
    by (cases loc) auto
  from Cons.prems obtain obj where
    t: "Texture (Suc (textures_generated w)) (of_int wd) (of_int ht)
          (ImageLocation (x, y, wd, ht)) = Inr obj" and
    r: "load_textures_loop src rest m f s (acc @ [length (objects w)])
          ((snd (gen_texture w))\<lparr>objects := objects w @ [obj]\<rparr>) = (Inr refs, w')"
    unfolding loc using load_textures_loop_Cons_success by blast
  have ow: "objects ((snd (gen_texture w))\<lparr>objects := objects w @ [obj]\<rparr>) = objects w @ [obj]"
    by simp
  from Cons.IH [OF r] obtain new where
    o: "objects w' = (objects w @ [obj]) @ new" and
    rf: "refs = (acc @ [length (objects w)]) @
           [length (objects w @ [obj]) ..< length (objects w @ [obj]) + length rest]" and
    mp: "map (\<lambda>obj. (obj ''width'', obj ''height'')) new =
       map (\<lambda>(x, y, wd, ht). (Some (Number (of_int wd)), Some (Number (of_int ht)))) rest"
    unfolding ow by blast
  have a: "objects w' = objects w @ (obj # new)"
    using o by simp
  have b: "refs = acc @ [length (objects w) ..< length (objects w) + length (loc # rest)]"
    unfolding rf by (simp del: upt_Suc add: upt_first_index)
  have c: "map (\<lambda>obj. (obj ''width'', obj ''height'')) (obj # new) =
       map (\<lambda>(x, y, wd, ht). (Some (Number (of_int wd)), Some (Number (of_int ht)))) (loc # rest)"
    using mp Texture_Inr [OF t] by (simp add: loc)
  from a b c show ?case by blast
qed

lemma map_nth_append_upt:
  "map (\<lambda>r. g ((xs @ new) ! r)) [length xs ..< length xs + length new] = map g new"
  by (rule nth_equalityI) (simp_all add: nth_append)

lemma load_textures_loop_independent:
  "load_textures_loop src locs m f s acc w = load_textures_loop src locs False False 1 acc w"
proof (induction locs arbitrary: acc w)
  case Nil
  show ?case by simp
next
  case (Cons loc rest)
  obtain x y wd ht where loc: "loc = (x, y, wd, ht)"
    by (cases loc) auto
  obtain sw sh where src: "src = (sw, sh)"
    by (cases src) auto
  show ?case
    unfolding loc src load_textures_loop.simps Let_def mirror_def flip_def
    by (simp add: Cons.IH [unfolded src] split: prod.splits sum.splits)
qed

lemma load_texture_hit:
  "texture_cache w (cache_name_of f x y wd ht s fp m) = Some c \<Longrightarrow>
   load_texture f x y wd ht m fp s w = (Inr c, w)"
  by (simp add: load_texture_def)

lemma load_texture_miss:
  assumes "texture_cache w (cache_name_of f x y wd ht s fp m) = None"
  shows "load_texture f x y wd ht m fp s w =
     (case disk w f of
        None \<Rightarrow> (Inl (NoSuchFile f), w)
      | Some src \<Rightarrow>
          (case cropped src x y wd ht of
             Inl e \<Rightarrow> (Inl e, w)
           | Inr img \<Rightarrow>
               (case Texture (Suc (textures_generated w)) (of_int (fst img * s))
                       (of_int (snd img * s)) (FileName f) of
                  Inl e \<Rightarrow> (Inl e, snd (gen_texture w))
                | Inr obj \<Rightarrow>
                    (Inr (length (objects w)),
                     (snd (gen_texture w))
                       \<lparr>objects := objects w @ [obj],
                        texture_cache :=
                          (texture_cache w)
                            (cache_name_of f x y wd ht s fp m \<mapsto> length (objects w))\<rparr>))))"
proof (cases "disk w f")
  case None
  with assms show ?thesis by (simp add: load_texture_def)
next
  case (Some src)
  show ?thesis
  proof (cases "cropped src x y wd ht")
    case (Inl e)
    with assms Some show ?thesis by (simp add: load_texture_def)
  next
    case (Inr img)
    obtain iw ih where img: "img = (iw, ih)" by (cases img) auto
    show ?thesis
    proof (cases "Texture (Suc (textures_generated w)) (of_int (iw * s))
                       (of_int (ih * s)) (FileName f)")
      case (Inl e)
      with assms Some Inr img show ?thesis
        by (simp add: load_texture_def Let_def mirror_def flip_def gen_texture_def)
    next
      case Inr2: (Inr obj)
      with assms Some Inr img show ?thesis
        by (simp add: load_texture_def Let_def mirror_def flip_def gen_texture_def
            new_object_def)
    qed
  qed
qed


lemma gen_texture_cache: "texture_cache (snd (gen_texture w)) = texture_cache w"
  by (simp add: gen_texture_def Let_def)

lemma gen_texture_objects: "objects (snd (gen_texture w)) = objects w"
  by (simp add: gen_texture_def Let_def)

lemma load_texture_reported_size:
  assumes miss: "texture_cache w (cache_name_of file_name x y width height scale flipped mirrored) = None"
    and ok: "load_texture file_name x y width height mirrored flipped scale w = (Inr r, w')"
  shows "\<exists>src img. disk w file_name = Some src \<and> cropped src x y width height = Inr img \<and>
     reported_size w' r =
       (Some (Number (of_int (fst img * scale))), Some (Number (of_int (snd img * scale))))"
  using ok unfolding load_texture_miss [OF miss]
  by (auto simp: reported_size_def gen_texture_objects Texture_def Texture_init_def
      split: option.splits sum.splits if_splits)

lemmas loader_defs =
  load_texture_def load_textures_def start_def cropped_def Let_def gen_texture_def
  Texture_def Texture_init_def new_object_def mirror_def flip_def reported_size_def


text \<open>
  Claim C9. Every \<^verbatim>\<open>Texture\<close> returned by \<^verbatim>\<open>load_textures\<close> reports the width and
  the height of the crop rectangle requested for its entry, and the result of
  \<^verbatim>\<open>load_textures\<close> is the same for every value of \<open>mirrored\<close>, \<open>flipped\<close> and
  \<open>scale\<close>; \<^verbatim>\<open>load_texture\<close>, on a key that is not cached, reports the size of the
  cropped image multiplied by \<open>scale\<close>.
\<close>

theorem load_textures_reported_size:
  assumes "load_textures file_name image_location_list mirrored flipped scale w =
      (Inr refs, w')"
  shows "length refs = length image_location_list \<and>
     map (reported_size w') refs =
       map (\<lambda>(x, y, width, height).
              (Some (Number (of_int width)), Some (Number (of_int height))))
         image_location_list \<and>
     load_textures file_name image_location_list mirrored' flipped' scale' w =
       (Inr refs, w') \<and>
     (texture_cache w (cache_name_of file_name x y width height scale flipped mirrored) = None \<and>
      load_texture file_name x y width height mirrored flipped scale w = (Inr r, w'') \<longrightarrow>
        (\<exists>src img. disk w file_name = Some src \<and> cropped src x y width height = Inr img \<and>
           reported_size w'' r =
             (Some (Number (of_int (fst img * scale))),
              Some (Number (of_int (snd img * scale))))))"
proof -
  from assms obtain src where
    d: "disk w file_name = Some src" and
    l: "load_textures_loop src image_location_list mirrored flipped scale [] w = (Inr refs, w')"
    by (auto simp: load_textures_def split: option.splits)
  from load_textures_loop_objects [OF l] obtain new where
    o: "objects w' = objects w @ new" and
    rf: "refs = [length (objects w) ..< length (objects w) + length image_location_list]" and
    mp: "map (\<lambda>obj. (obj ''width'', obj ''height'')) new =
       map (\<lambda>(x, y, wd, ht). (Some (Number (of_int wd)), Some (Number (of_int ht))))
         image_location_list"
    by auto
  have len: "length new = length image_location_list"
    using arg_cong [OF mp, of length] by simp
  have "map (\<lambda>r. (\<lambda>obj. (obj ''width'', obj ''height'')) ((objects w @ new) ! r))
          [length (objects w) ..< length (objects w) + length new] =
        map (\<lambda>obj. (obj ''width'', obj ''height'')) new"
    by (rule map_nth_append_upt)
  then have sz: "map (reported_size w') refs = map (\<lambda>obj. (obj ''width'', obj ''height'')) new"
    unfolding rf o reported_size_def [abs_def] len by simp
  have ind: "load_textures file_name image_location_list mirrored' flipped' scale' w =
      (Inr refs, w')"
    using l load_textures_loop_independent [of src image_location_list mirrored flipped scale "[]" w]
      load_textures_loop_independent [of src image_location_list mirrored' flipped' scale' "[]" w]
    by (simp add: load_textures_def d)
  have lr: "length refs = length image_location_list"
    unfolding rf by simp
  have one: "texture_cache w (cache_name_of file_name x y width height scale flipped mirrored) = None \<and>
      load_texture file_name x y width height mirrored flipped scale w = (Inr r, w'') \<longrightarrow>
        (\<exists>src img. disk w file_name = Some src \<and> cropped src x y width height = Inr img \<and>
           reported_size w'' r =
             (Some (Number (of_int (fst img * scale))),
              Some (Number (of_int (snd img * scale)))))"
    using load_texture_reported_size by blast
  from lr sz mp ind one show ?thesis
    by simp
qed

theorem load_textures_reported_size_witness:
  "fst (load_textures ''m.png'' [(0, 0, 10, 20), (10, 0, 30, 40)] True False 3
          (start [''m.png'' \<mapsto> (101, 84)])) = Inr [0, 1] \<and>
   map (reported_size
          (snd (load_textures ''m.png'' [(0, 0, 10, 20), (10, 0, 30, 40)] True False 3
                  (start [''m.png'' \<mapsto> (101, 84)])))) [0, 1] =
     [(Some (Number 10), Some (Number 20)), (Some (Number 30), Some (Number 40))] \<and>
   load_textures ''m.png'' [(0, 0, 10, 20), (10, 0, 30, 40)] False True 1
       (start [''m.png'' \<mapsto> (101, 84)]) =
     load_textures ''m.png'' [(0, 0, 10, 20), (10, 0, 30, 40)] True False 3
       (start [''m.png'' \<mapsto> (101, 84)]) \<and>
   fst (load_texture ''m.png'' 0 0 10 20 True False 3 (start [''m.png'' \<mapsto> (101, 84)])) =
     Inr 0 \<and>
   reported_size
     (snd (load_texture ''m.png'' 0 0 10 20 True False 3 (start [''m.png'' \<mapsto> (101, 84)]))) 0 =
     (Some (Number 30), Some (Number 60))"
proof -
  let ?w = "start [''m.png'' \<mapsto> (101, 84)]"
  let ?L = "[(0, 0, 10, 20), (10, 0, 30, 40)] :: (int \<times> int \<times> int \<times> int) list"
  have f: "fst (load_textures ''m.png'' ?L True False 3 ?w) = Inr [0, 1]"
    by (simp add: loader_defs)
  then have h: "load_textures ''m.png'' ?L True False 3 ?w =
      (Inr [0, 1], snd (load_textures ''m.png'' ?L True False 3 ?w))"
    by (metis prod.collapse)
  have m: "texture_cache ?w (cache_name_of ''m.png'' 0 0 10 20 3 False True) = None"
    by (simp add: start_def)
  have g: "fst (load_texture ''m.png'' 0 0 10 20 True False 3 ?w) = Inr 0"
    by (simp add: loader_defs)
  then have k: "load_texture ''m.png'' 0 0 10 20 True False 3 ?w =
      (Inr 0, snd (load_texture ''m.png'' 0 0 10 20 True False 3 ?w))"
    by (metis prod.collapse)
  have c: "cropped (101, 84) 0 0 10 20 = Inr (10, 20)"
    by (simp add: cropped_def)
  have dk: "disk ?w ''m.png'' = Some (101, 84)"
    by (simp add: start_def)
  note t = load_textures_reported_size
    [OF h, where mirrored' = False and flipped' = True and scale' = 1
       and x = 0 and y = 0 and width = 10 and height = 20 and r = 0
       and w'' = "snd (load_texture ''m.png'' 0 0 10 20 True False 3 ?w)"]
  from t have a: "map (reported_size (snd (load_textures ''m.png'' ?L True False 3 ?w))) [0, 1] =
     [(Some (Number 10), Some (Number 20)), (Some (Number 30), Some (Number 40))]"
    by simp
  from t h have b: "load_textures ''m.png'' ?L False True 1 ?w =
      load_textures ''m.png'' ?L True False 3 ?w"
    by simp
  from t m k dk c have e: "reported_size
     (snd (load_texture ''m.png'' 0 0 10 20 True False 3 ?w)) 0 =
     (Some (Number 30), Some (Number 60))"
    by auto
  from f a b g e show ?thesis
    by blast
qed

section \<open>The texture cache\<close>

lemma load_texture_miss_caches:
  assumes miss: "texture_cache w (cache_name_of f x y wd ht s fp m) = None"
    and ok: "load_texture f x y wd ht m fp s w = (Inr r, w')"
  shows "texture_cache w' (cache_name_of f x y wd ht s fp m) = Some r"
  using ok unfolding load_texture_miss [OF miss]
  by (auto split: option.splits sum.splits)

lemma load_texture_same_key:
  assumes "load_texture f x y wd ht m fp s w = (Inr r, w')"
  shows "load_texture f x y wd ht m fp s w' = (Inr r, w')"
proof (cases "texture_cache w (cache_name_of f x y wd ht s fp m)")
  case None
  from load_texture_miss_caches [OF None assms] show ?thesis
    by (rule load_texture_hit)
next
  case (Some c)
  from load_texture_hit [OF Some] assms have "r = c" "w' = w"
    by simp_all
  with load_texture_hit [OF Some] show ?thesis
    by simp
qed

lemma load_texture_cache_keeps:
  assumes "texture_cache w k = Some r"
  shows "texture_cache (snd (load_texture f x y wd ht m fp s w)) k = Some r"
proof (cases "texture_cache w (cache_name_of f x y wd ht s fp m)")
  case None
  with assms have ne: "k \<noteq> cache_name_of f x y wd ht s fp m"
    by auto
  show ?thesis
    unfolding load_texture_miss [OF None]
    using assms ne by (simp add: gen_texture_cache split: option.splits sum.splits)
next
  case (Some c)
  from load_texture_hit [OF Some] assms show ?thesis
    by simp
qed

lemma digit_char_inj: "a < 10 \<Longrightarrow> b < 10 \<Longrightarrow> digit_char a = digit_char b \<Longrightarrow> a = b"
  unfolding digit_char_def
  using nth_eq_iff_index_eq [of "''0123456789''" a b] by simp

lemma str_nat_last: "str_nat n \<noteq> [] \<and> last (str_nat n) = digit_char (n mod 10)"
  by (subst (1 2) str_nat.simps) simp

lemma str_nat_butlast: "butlast (str_nat n) = (if n < 10 then [] else str_nat (n div 10))"
  by (subst str_nat.simps) simp

lemma str_nat_inj: "str_nat a = str_nat b \<Longrightarrow> a = b"
proof (induction a arbitrary: b rule: str_nat.induct)
  case (1 n)
  have "digit_char (n mod 10) = digit_char (b mod 10)"
    using "1.prems" str_nat_last [of n] str_nat_last [of b] by simp
  then have m: "n mod 10 = b mod 10"
    by (intro digit_char_inj) simp_all
  have bl: "(if n < 10 then [] else str_nat (n div 10)) = (if b < 10 then [] else str_nat (b div 10))"
    using "1.prems" str_nat_butlast [of n] str_nat_butlast [of b] by simp
  show ?case
  proof (cases "n < 10")
    case True
    with bl str_nat_last [of "b div 10"] have "b < 10"
      by (auto split: if_splits)
    with True m show ?thesis by simp
  next
    case False
    with bl str_nat_last [of "n div 10"] have b: "\<not> b < 10"
      by (auto split: if_splits)
    with False bl have "str_nat (n div 10) = str_nat (b div 10)" by simp
    with "1.IH" False have "n div 10 = b div 10" by simp
    with m show ?thesis
      by (metis div_mult_mod_eq)
  qed
qed

lemma str_nat_digits: "set (str_nat n) \<subseteq> set ''0123456789''"
proof (induction n rule: str_nat.induct)
  case (1 n)
  have d: "digit_char (n mod 10) \<in> set ''0123456789''"
    unfolding digit_char_def by (rule nth_mem) simp
  show ?case
  proof (cases "n < 10")
    case True
    then show ?thesis using d by (subst str_nat.simps) simp
  next
    case False
    then show ?thesis using d "1.IH" by (subst str_nat.simps) simp
  qed
qed

lemma str_nat_no_minus: "CHR ''-'' # xs \<noteq> str_nat n"
proof
  assume "CHR ''-'' # xs = str_nat n"
  then have "CHR ''-'' \<in> set (str_nat n)" by (metis list.set_intros(1))
  with str_nat_digits [of n] show False by auto
qed

lemma str_int_inj: "str_int a = str_int b \<Longrightarrow> a = b"
  using str_nat_no_minus str_nat_no_minus [symmetric]
  by (auto simp: str_int_def dest!: str_nat_inj split: if_splits)

lemma cache_name_of_scale:
  "cache_name_of f x y wd ht s1 fp m = cache_name_of f x y wd ht s2 fp m \<Longrightarrow> s1 = s2"
  by (simp add: cache_name_of_def str_int_inj)

text \<open>
  Claim C2. Two calls of \<^verbatim>\<open>load_texture\<close> with equal key tuples return the same
  instance (\<open>load_texture_same_key\<close>), an entry of the cache is never replaced
  (\<open>load_texture_cache_keeps\<close>), and two keys that differ only in the scale have
  different cache names (\<open>cache_name_of_scale\<close>). But the cache name is the
  concatenation of the formatted parameters with nothing between them, and two
  distinct key tuples can have the same cache name: on an image of 101 by 84 pixels,
  the crop of 34 by 5 at \<open>(1, 2)\<close> and the crop of 4 by 5 at \<open>(12, 3)\<close> both have the
  name \<^verbatim>\<open>m.png123451FalseFalse\<close>. The second call then returns the instance of the
  first, of width 34, where a call on its own gives an instance of width 4.
\<close>

theorem load_texture_cache_name_collision:
  "cache_name_of ''m.png'' 1 2 34 5 1 False False = ''m.png123451FalseFalse'' \<and>
   cache_name_of ''m.png'' 12 3 4 5 1 False False = ''m.png123451FalseFalse'' \<and>
   fst (load_texture ''m.png'' 1 2 34 5 False False 1 (start [''m.png'' \<mapsto> (101, 84)])) =
     Inr 0 \<and>
   load_texture ''m.png'' 12 3 4 5 False False 1
       (snd (load_texture ''m.png'' 1 2 34 5 False False 1
               (start [''m.png'' \<mapsto> (101, 84)]))) =
     (Inr 0,
      snd (load_texture ''m.png'' 1 2 34 5 False False 1 (start [''m.png'' \<mapsto> (101, 84)]))) \<and>
   reported_size
     (snd (load_texture ''m.png'' 1 2 34 5 False False 1 (start [''m.png'' \<mapsto> (101, 84)]))) 0 =
     (Some (Number 34), Some (Number 5)) \<and>
   fst (load_texture ''m.png'' 12 3 4 5 False False 1 (start [''m.png'' \<mapsto> (101, 84)])) =
     Inr 0 \<and>
   reported_size
     (snd (load_texture ''m.png'' 12 3 4 5 False False 1 (start [''m.png'' \<mapsto> (101, 84)]))) 0 =
     (Some (Number 4), Some (Number 5))"
proof -
  let ?w = "start [''m.png'' \<mapsto> (101, 84)]"
  have ck1: "cache_name_of ''m.png'' 1 2 34 5 1 False False = ''m.png123451FalseFalse''"
    by (simp add: cache_name_of_def str_int_def str_nat.simps str_bool_def digit_char_def)
  have ck2: "cache_name_of ''m.png'' 12 3 4 5 1 False False = ''m.png123451FalseFalse''"
    by (simp add: cache_name_of_def str_int_def str_nat.simps str_bool_def digit_char_def)
  have lt1: "fst (load_texture ''m.png'' 1 2 34 5 False False 1 ?w) = Inr 0"
    by (simp add: loader_defs ck1)
  have lt1s: "reported_size (snd (load_texture ''m.png'' 1 2 34 5 False False 1 ?w)) 0 =
      (Some (Number 34), Some (Number 5))"
    by (simp add: loader_defs ck1)
  have lt1c: "texture_cache (snd (load_texture ''m.png'' 1 2 34 5 False False 1 ?w)) =
      [''m.png123451FalseFalse'' \<mapsto> 0]"
    by (simp add: loader_defs ck1)
  have lt2: "load_texture ''m.png'' 12 3 4 5 False False 1
       (snd (load_texture ''m.png'' 1 2 34 5 False False 1 ?w)) =
     (Inr 0, snd (load_texture ''m.png'' 1 2 34 5 False False 1 ?w))"
    unfolding load_texture_def [of "''m.png''" 12] ck2 Let_def lt1c by simp
  have lt3: "fst (load_texture ''m.png'' 12 3 4 5 False False 1 ?w) = Inr 0 \<and>
      reported_size (snd (load_texture ''m.png'' 12 3 4 5 False False 1 ?w)) 0 =
        (Some (Number 4), Some (Number 5))"
    by (simp add: loader_defs ck2)
  from ck1 ck2 lt1 lt1s lt2 lt3 show ?thesis
    by blast
qed


end
